theory Spec2Isabelle
  imports Main "HOL-Library.Sublist"
begin

section \<open>Calendar values of the datetime module\<close>

text \<open>
  The tracker works on \<^verbatim>\<open>datetime.date\<close>, \<^verbatim>\<open>datetime.datetime\<close> and
  \<^verbatim>\<open>datetime.timedelta\<close> values. A datetime is a date with a time of day (the
  Python class is a subclass of date), so it is a record extension. Python integers are
  unbounded: the fields are \<^typ>\<open>int\<close>.
\<close>

record date =
  year :: int
  month :: int
  day :: int

record datetime = date +
  hour :: int
  minute :: int
  second :: int
  microsecond :: int

record timedelta =
  days :: int
  seconds :: int
  microseconds :: int

text \<open>The exceptions the extraction can raise.\<close>

datatype error = IndexError | ValueError | TypeError

text \<open>\<^verbatim>\<open>datetime.date()\<close>: the calendar date of a datetime, time of day dropped.\<close>

definition date_of :: "datetime \<Rightarrow> date" where
  "date_of dt = \<lparr>year = year dt, month = month dt, day = day dt\<rparr>"

text \<open>
  The ordinal of a date, as the datetime module computes it
  (\<^verbatim>\<open>_is_leap\<close>, \<^verbatim>\<open>_days_before_year\<close>, \<^verbatim>\<open>_days_in_month\<close>,
  \<^verbatim>\<open>_days_before_month\<close>, \<^verbatim>\<open>_ymd2ord\<close>). Python's \<^verbatim>\<open>//\<close> and \<^verbatim>\<open>%\<close>
  round to minus infinity, as \<open>div\<close> and \<open>mod\<close> on \<^typ>\<open>int\<close> do.
\<close>

definition DAYS_IN_MONTH :: "int list" where
  "DAYS_IN_MONTH = [-1, 31, 28, 31, 30, 31, 30, 31, 31, 30, 31, 30, 31]"

definition DAYS_BEFORE_MONTH :: "int list" where
  "DAYS_BEFORE_MONTH = [-1, 0, 31, 59, 90, 120, 151, 181, 212, 243, 273, 304, 334]"

definition is_leap :: "int \<Rightarrow> bool" where
  "is_leap y = (y mod 4 = 0 \<and> (y mod 100 \<noteq> 0 \<or> y mod 400 = 0))"

definition days_before_year :: "int \<Rightarrow> int" where
  "days_before_year yr = (let y = yr - 1 in y * 365 + y div 4 - y div 100 + y div 400)"

definition days_in_month :: "int \<Rightarrow> int \<Rightarrow> int" where
  "days_in_month y m = (if m = 2 \<and> is_leap y then 29 else DAYS_IN_MONTH ! nat m)"

definition days_before_month :: "int \<Rightarrow> int \<Rightarrow> int" where
  "days_before_month y m =
     DAYS_BEFORE_MONTH ! nat m + (if 2 < m \<and> is_leap y then 1 else 0)"

definition ymd2ord :: "int \<Rightarrow> int \<Rightarrow> int \<Rightarrow> int" where
  "ymd2ord y m d = days_before_year y + days_before_month y m + d"

definition toordinal :: "'a date_scheme \<Rightarrow> int" where
  "toordinal d = ymd2ord (year d) (month d) (day d)"

text \<open>
  The constructor's check of the date fields (\<^verbatim>\<open>_check_date_fields\<close>): years 1 to
  9999, months 1 to 12, a day of that month. Every date and datetime Python builds
  satisfies it; a violation raises \<^verbatim>\<open>ValueError\<close>.
\<close>

definition check_date_fields :: "int \<Rightarrow> int \<Rightarrow> int \<Rightarrow> bool" where
  "check_date_fields y m d =
     (1 \<le> y \<and> y \<le> 9999 \<and> 1 \<le> m \<and> m \<le> 12 \<and> 1 \<le> d \<and> d \<le> days_in_month y m)"

text \<open>
  \<^verbatim>\<open>date.__sub__\<close> on two dates is the timedelta of the difference of the ordinals,
  and timedeltas compare as the tuples (days, seconds, microseconds).
\<close>

definition date_sub :: "date \<Rightarrow> date \<Rightarrow> timedelta" where
  "date_sub a b = \<lparr>days = toordinal a - toordinal b, seconds = 0, microseconds = 0\<rparr>"

definition timedelta_lt :: "timedelta \<Rightarrow> timedelta \<Rightarrow> bool" where
  "timedelta_lt a b =
     (days a < days b \<or>
      (days a = days b \<and>
        (seconds a < seconds b \<or>
         (seconds a = seconds b \<and> microseconds a < microseconds b))))"

section \<open>parse\_date: strptime with the format \%d/\%m/\%Y \%H:\%M\<close>

text \<open>
  \<^verbatim>\<open>parse_date(datestr)\<close> is \<^verbatim>\<open>datetime.strptime(datestr, "%d/%m/%Y %H:%M")\<close>.
  The standard library turns the format into the regular expression
  \<^verbatim>\<open>(?P<d>3[0-1]|[1-2]\d|0[1-9]|[1-9]| [1-9])/(?P<m>1[0-2]|0[1-9]|[1-9])/(?P<Y>\d\d\d\d)\s+(?P<H>2[0-3]|[0-1]\d|\d):(?P<M>[0-5]\d|\d)\<close>,
  matches it at the start of the string, raises \<^verbatim>\<open>ValueError\<close> when there is no
  match or when the match does not reach the end of the string, converts the groups with
  \<^verbatim>\<open>int\<close> and builds the date, which raises \<^verbatim>\<open>ValueError\<close> for a day the month
  does not have and for the year 0000.

  A matcher returns every way to match a prefix of its input, as (matched text, rest),
  in the order in which a backtracking matcher tries them: the first element of the list
  for the whole expression is the match that \<^verbatim>\<open>re.match\<close> reports.

  Strings are lists of \<^typ>\<open>char\<close>: the model covers the strings of code points below
  256, where the decimal digits are \<^verbatim>\<open>0\<close> to \<^verbatim>\<open>9\<close> and the white space
  characters of \<^verbatim>\<open>\s\<close> are the twelve listed in \<open>is_space\<close>.
\<close>

type_synonym matcher = "string \<Rightarrow> (string \<times> string) list"

definition in_range :: "char \<Rightarrow> char \<Rightarrow> char \<Rightarrow> bool" where
  "in_range lo hi c = ((of_char lo :: nat) \<le> of_char c \<and> (of_char c :: nat) \<le> of_char hi)"

definition is_digit :: "char \<Rightarrow> bool" where
  "is_digit c = in_range CHR ''0'' CHR ''9'' c"

definition is_space :: "char \<Rightarrow> bool" where
  "is_space c = ((of_char c :: nat) \<in> {9, 10, 11, 12, 13, 28, 29, 30, 31, 32, 133, 160})"

definition re_class :: "(char \<Rightarrow> bool) \<Rightarrow> matcher" where
  "re_class P s = (case s of [] \<Rightarrow> [] | c # r \<Rightarrow> if P c then [([c], r)] else [])"

definition re_lit :: "char \<Rightarrow> matcher" where
  "re_lit x = re_class (\<lambda>c. c = x)"

definition re_seq :: "matcher \<Rightarrow> matcher \<Rightarrow> matcher" where
  "re_seq p q s = [(a @ b, r'). (a, r) \<leftarrow> p s, (b, r') \<leftarrow> q r]"

definition re_alt :: "matcher \<Rightarrow> matcher \<Rightarrow> matcher" where
  "re_alt p q s = p s @ q s"

text \<open>One or more characters of a class, greedy: the longest run is tried first.\<close>

fun re_plus :: "(char \<Rightarrow> bool) \<Rightarrow> matcher" where
  "re_plus P [] = []"
| "re_plus P (c # r) =
     (if P c then [(c # a, r'). (a, r') \<leftarrow> re_plus P r] @ [([c], r)] else [])"

definition re_d :: matcher where
  "re_d =
     re_alt (re_seq (re_lit CHR ''3'') (re_class (in_range CHR ''0'' CHR ''1'')))
    (re_alt (re_seq (re_class (in_range CHR ''1'' CHR ''2'')) (re_class is_digit))
    (re_alt (re_seq (re_lit CHR ''0'') (re_class (in_range CHR ''1'' CHR ''9'')))
    (re_alt (re_class (in_range CHR ''1'' CHR ''9''))
            (re_seq (re_lit CHR '' '') (re_class (in_range CHR ''1'' CHR ''9''))))))"

definition re_m :: matcher where
  "re_m =
     re_alt (re_seq (re_lit CHR ''1'') (re_class (in_range CHR ''0'' CHR ''2'')))
    (re_alt (re_seq (re_lit CHR ''0'') (re_class (in_range CHR ''1'' CHR ''9'')))
            (re_class (in_range CHR ''1'' CHR ''9'')))"

definition re_Y :: matcher where
  "re_Y =
     re_seq (re_class is_digit) (re_seq (re_class is_digit)
       (re_seq (re_class is_digit) (re_class is_digit)))"

definition re_H :: matcher where
  "re_H =
     re_alt (re_seq (re_lit CHR ''2'') (re_class (in_range CHR ''0'' CHR ''3'')))
    (re_alt (re_seq (re_class (in_range CHR ''0'' CHR ''1'')) (re_class is_digit))
            (re_class is_digit))"

definition re_M :: matcher where
  "re_M =
     re_alt (re_seq (re_class (in_range CHR ''0'' CHR ''5'')) (re_class is_digit))
            (re_class is_digit)"

text \<open>The whole expression, with its five groups and the text left after the match.\<close>

definition format_regex_match ::
  "string \<Rightarrow> ((string \<times> string \<times> string \<times> string \<times> string) \<times> string) list" where
  "format_regex_match s =
     [((d, m, y, h, mi), r9).
        (d, r1) \<leftarrow> re_d s, (s1, r2) \<leftarrow> re_lit CHR ''/'' r1,
        (m, r3) \<leftarrow> re_m r2, (s2, r4) \<leftarrow> re_lit CHR ''/'' r3,
        (y, r5) \<leftarrow> re_Y r4, (ws, r6) \<leftarrow> re_plus is_space r5,
        (h, r7) \<leftarrow> re_H r6, (s3, r8) \<leftarrow> re_lit CHR '':'' r7,
        (mi, r9) \<leftarrow> re_M r8]"

text \<open>
  \<^verbatim>\<open>int(s)\<close> on a group: white space at both ends is skipped (the day group
  may be a space and a digit), the digits are read in base ten. A group of the
  expression holds nothing but digits between these ends, so the conversion does not
  fail.
\<close>

definition digit_value :: "char \<Rightarrow> int" where
  "digit_value c = int (of_char c) - 48"

definition strip :: "string \<Rightarrow> string" where
  "strip s = rev (dropWhile is_space (rev (dropWhile is_space s)))"

definition py_int :: "string \<Rightarrow> int" where
  "py_int s = foldl (\<lambda>n c. 10 * n + digit_value c) 0 (strip s)"

definition strptime :: "string \<Rightarrow> error + datetime" where
  "strptime data_string =
     (case format_regex_match data_string of
        [] \<Rightarrow> Inl ValueError
      | ((d, m, y, h, mi), rest) # _ \<Rightarrow>
          if rest \<noteq> [] then Inl ValueError
          else if check_date_fields (py_int y) (py_int m) (py_int d)
          then Inr \<lparr>year = py_int y, month = py_int m, day = py_int d,
                    hour = py_int h, minute = py_int mi, second = 0, microsecond = 0\<rparr>
          else Inl ValueError)"

text \<open>
  The argument is the \<^verbatim>\<open>.text\<close> of a cell, which is \<^verbatim>\<open>None\<close> for a cell with no
  leading text; strptime raises \<^verbatim>\<open>TypeError\<close> on it.
\<close>

definition parse_date :: "string option \<Rightarrow> error + datetime" where
  "parse_date datestr =
     (case datestr of None \<Rightarrow> Inl TypeError | Some s \<Rightarrow> strptime s)"

section \<open>The parsed page\<close>

text \<open>
  \<^verbatim>\<open>html.fromstring(page)\<close> returns an element of the parsed document. An element
  has a tag, attributes, the text before its first child (\<^verbatim>\<open>.text\<close>, \<^verbatim>\<open>None\<close>
  when there is none), its children, and the text after its closing tag
  (\<^verbatim>\<open>.tail\<close>). The model starts from the root element of the parsed document:
  the path \<^verbatim>\<open>//table[...]\<close> is absolute, so it searches the whole document
  whichever element \<^verbatim>\<open>fromstring\<close> returned.

  The children of an element are its child elements and also the comments and
  processing instructions that stand between them: \<^verbatim>\<open>row[i]\<close> and
  \<^verbatim>\<open>len(row)\<close> count them all. \<open>Comment\<close> is such a node: it has its content
  as \<^verbatim>\<open>.text\<close>, a tail and no children, and no tag that a path could name.
\<close>

datatype element =
  Element (tag: string) (attrib: "(string \<times> string) list") (elem_text: "string option")
    (children: "element list") (tail: "string option")
| Comment (content: string) (tail: "string option")
where
  "elem_text (Comment s ta) = Some s"
| "children (Comment s ta) = []"

text \<open>
  The text inside a node as the XPath function \<^verbatim>\<open>string()\<close> collects it for an
  enclosing element: the text of the element and of all its descendants, in document
  order, the tails of the descendants included and its own tail excluded; the content
  of a comment is no text of the document.
\<close>

fun inner_text :: "element \<Rightarrow> string" where
  "inner_text (Element t a tx ch ta) =
     (case tx of None \<Rightarrow> [] | Some s \<Rightarrow> s) @
     concat (map (\<lambda>c. inner_text c @ (case tail c of None \<Rightarrow> [] | Some s \<Rightarrow> s)) ch)"
| "inner_text (Comment s ta) = []"

text \<open>
  \<^verbatim>\<open>text_content()\<close> evaluates \<^verbatim>\<open>string()\<close> on the node. A compiled path
  takes elements only: on a comment or a processing instruction the call raises
  \<^verbatim>\<open>ValueError\<close> (input object is not an XML element).
\<close>

definition text_content :: "element \<Rightarrow> error + string" where
  "text_content e =
     (case e of
        Element t a tx ch ta \<Rightarrow> Inr (inner_text e)
      | Comment s ta \<Rightarrow> Inl ValueError)"

text \<open>All nodes of a tree in document order (\<^verbatim>\<open>iter()\<close>).\<close>

fun iter :: "element \<Rightarrow> element list" where
  "iter (Element t a tx ch ta) = Element t a tx ch ta # concat (map iter ch)"
| "iter (Comment s ta) = [Comment s ta]"

text \<open>
  The path \<^verbatim>\<open>//table[@id="G"]//tbody//tr\<close>: the \<^verbatim>\<open>tr\<close> elements below a
  \<^verbatim>\<open>tbody\<close> element that is below a \<^verbatim>\<open>table\<close> element whose \<^verbatim>\<open>id\<close>
  attribute is G, each once, in document order. The walk carries two flags: a table with
  that id is a proper ancestor (\<open>in_table\<close>), and a tbody below such a table is a proper
  ancestor (\<open>in_tbody\<close>).
\<close>

definition is_grid :: "string \<Rightarrow> element \<Rightarrow> bool" where
  "is_grid gridname e =
     (case e of
        Element t a tx ch ta \<Rightarrow> t = ''table'' \<and> map_of a ''id'' = Some gridname
      | Comment s ta \<Rightarrow> False)"

fun walk :: "string \<Rightarrow> bool \<Rightarrow> bool \<Rightarrow> element \<Rightarrow> element list" where
  "walk gridname in_table in_tbody (Element t a tx ch ta) =
     (if in_tbody \<and> t = ''tr'' then [Element t a tx ch ta] else []) @
     concat (map (walk gridname
                    (in_table \<or> is_grid gridname (Element t a tx ch ta))
                    (in_tbody \<or> (in_table \<and> t = ''tbody''))) ch)"
| "walk gridname in_table in_tbody (Comment s ta) = []"

definition xpath_rows :: "string \<Rightarrow> element \<Rightarrow> element list" where
  "xpath_rows gridname tree = walk gridname False False tree"

section \<open>parse\_page\<close>

text \<open>
  An issue is the dictionary with the five keys that the loop body fills. The key
  \<^verbatim>\<open>end\<close> is the field \<open>end_time\<close>.
\<close>

record issue =
  issue_type :: "string option"
  reference :: string
  start :: datetime
  end_time :: datetime
  codes :: "string option"

text \<open>
  Indexing with a literal index that is not negative: \<^verbatim>\<open>row[i]\<close> is the i-th
  child of the row, \<^verbatim>\<open>issues[i]\<close> the i-th list; \<^verbatim>\<open>IndexError\<close> out of range.
\<close>

definition getitem :: "'a list \<Rightarrow> nat \<Rightarrow> error + 'a" where
  "getitem xs i = (if i < length xs then Inr (xs ! i) else Inl IndexError)"

text \<open>The five assignments of the loop body, in the order the code evaluates them.\<close>

definition parse_row :: "element \<Rightarrow> error + issue" where
  "parse_row row =
     (case getitem (children row) 0 of Inl e \<Rightarrow> Inl e | Inr c0 \<Rightarrow>
      case getitem (children row) 1 of Inl e \<Rightarrow> Inl e | Inr c1 \<Rightarrow>
      case text_content c1 of Inl e \<Rightarrow> Inl e | Inr ref \<Rightarrow>
      case getitem (children row) 2 of Inl e \<Rightarrow> Inl e | Inr c2 \<Rightarrow>
      case parse_date (elem_text c2) of Inl e \<Rightarrow> Inl e | Inr s \<Rightarrow>
      case getitem (children row) 3 of Inl e \<Rightarrow> Inl e | Inr c3 \<Rightarrow>
      case parse_date (elem_text c3) of Inl e \<Rightarrow> Inl e | Inr en \<Rightarrow>
      case getitem (children row) 4 of Inl e \<Rightarrow> Inl e | Inr c4 \<Rightarrow>
      Inr \<lparr>issue_type = elem_text c0, reference = ref,
           start = s, end_time = en, codes = elem_text c4\<rparr>)"

definition time_gap :: timedelta where
  "time_gap = \<lparr>days = 2, seconds = 0, microseconds = 0\<rparr>"

text \<open>The condition of the \<^verbatim>\<open>if\<close> that guards the append.\<close>

definition within_time_gap :: "date \<Rightarrow> issue \<Rightarrow> bool" where
  "within_time_gap today issue =
     (timedelta_lt (date_sub (date_of (start issue)) today) time_gap \<and>
      timedelta_lt (date_sub today (date_of (end_time issue))) time_gap)"

text \<open>
  One of the three loops: the rows of one table, appended to \<^verbatim>\<open>issues[k]\<close>. The
  first exception ends the whole extraction.
\<close>

fun parse_rows ::
  "date \<Rightarrow> nat \<Rightarrow> element list \<Rightarrow> issue list list \<Rightarrow> error + issue list list" where
  "parse_rows today k [] issues = Inr issues"
| "parse_rows today k (row # rows) issues =
     (case parse_row row of
        Inl e \<Rightarrow> Inl e
      | Inr issue \<Rightarrow>
          parse_rows today k rows
            (if within_time_gap today issue then issues[k := issues ! k @ [issue]]
             else issues))"

definition grid_prefix :: string where
  "grid_prefix = ''ctl00_ctl00_ContentPlaceholderColumnTwo_PageContent_''"

definition past_grid :: string where
  "past_grid = grid_prefix @ ''pastOutagesGridView''"

definition planned_grid :: string where
  "planned_grid = grid_prefix @ ''plannedOutagesGridView''"

definition current_grid :: string where
  "current_grid = grid_prefix @ ''currentOutagesGridView''"

text \<open>
  \<^verbatim>\<open>parse_page\<close>, with the day \<^verbatim>\<open>date.today()\<close> returned as a parameter. The past
  table is read first, then the planned one, then the current one; the result is the
  list [current, planned, past].
\<close>

definition parse_page :: "date \<Rightarrow> element \<Rightarrow> error + issue list list" where
  "parse_page today tree =
     (case parse_rows today 2 (xpath_rows past_grid tree) [[], [], []] of
        Inl e \<Rightarrow> Inl e
      | Inr issues2 \<Rightarrow>
     (case parse_rows today 1 (xpath_rows planned_grid tree) issues2 of
        Inl e \<Rightarrow> Inl e
      | Inr issues1 \<Rightarrow> parse_rows today 0 (xpath_rows current_grid tree) issues1))"

section \<open>report\<close>

text \<open>
  Formatting of integers with \<^verbatim>\<open>%0wd\<close>, as \<^verbatim>\<open>isoformat()\<close> uses it: the
  decimal digits, padded with zeros on the left to the width w; a negative number has
  its sign first.
\<close>

definition digit_char :: "nat \<Rightarrow> char" where
  "digit_char n = char_of (48 + n)"

fun decimal :: "nat \<Rightarrow> string" where
  "decimal n = (if n < 10 then [digit_char n] else decimal (n div 10) @ [digit_char (n mod 10)])"

definition zero_pad :: "nat \<Rightarrow> int \<Rightarrow> string" where
  "zero_pad w n =
     (if n < 0
      then CHR ''-'' # replicate (w - 1 - length (decimal (nat (- n)))) CHR ''0'' @ decimal (nat (- n))
      else replicate (w - length (decimal (nat n))) CHR ''0'' @ decimal (nat n))"

definition isoformat :: "datetime \<Rightarrow> string" where
  "isoformat dt =
     zero_pad 4 (year dt) @ ''-'' @ zero_pad 2 (month dt) @ ''-'' @ zero_pad 2 (day dt) @
     ''T'' @ zero_pad 2 (hour dt) @ '':'' @ zero_pad 2 (minute dt) @ '':'' @
     zero_pad 2 (second dt) @
     (if microsecond dt \<noteq> 0 then ''.'' @ zero_pad 6 (microsecond dt) else [])"

text \<open>
  The slice \<^verbatim>\<open>s[i:]\<close> for a start i that is not negative: the start is clipped to
  the length, and the characters from there to the end are copied.
\<close>

definition slice_from :: "nat \<Rightarrow> 'a list \<Rightarrow> 'a list" where
  "slice_from i s = (let n = length s; lo = min i n in map (nth s) [lo..<n])"

definition outage_id :: "string \<Rightarrow> string" where
  "outage_id ref = slice_from 2 ref"

definition details_url :: string where
  "details_url = ''https://status.zen.co.uk/broadband/maintenance-outage-details.aspx?reference=''"

definition message :: "issue \<Rightarrow> string" where
  "message issue =
     ''Outage '' @ reference issue @ '' planned to start at '' @
     isoformat (start issue) @ '' and end at '' @
     isoformat (end_time issue) @ ''. Hopefully check '' @
     ''reference '' @ reference issue @ '' at '' @
     details_url @ outage_id (reference issue)"

text \<open>
  \<^verbatim>\<open>report\<close> prints; the model returns the lines printed, in order, and the
  exception that ended the run, if any. The message of a current issue is built and not
  printed.
\<close>

definition report :: "issue list list \<Rightarrow> string list \<times> error option" where
  "report issues =
     (case getitem issues 0 of
        Inl e \<Rightarrow> ([], Some e)
      | Inr current \<Rightarrow>
     (let out0 = map (\<lambda>issue. ''Outage current at '' @ isoformat (start issue)) current in
      case getitem issues 1 of
        Inl e \<Rightarrow> (out0, Some e)
      | Inr planned \<Rightarrow>
     (let out1 = out0 @ concat (map (\<lambda>issue.
                   [''Outage planned at '' @ isoformat (start issue), message issue]) planned) in
      case getitem issues 2 of
        Inl e \<Rightarrow> (out1, Some e)
      | Inr past \<Rightarrow>
          (out1 @ concat (map (\<lambda>issue.
             [''Outage complete, ended at '' @ isoformat (end_time issue), message issue]) past),
           None))))"

section \<open>Notions of the specification\<close>

text \<open>
  Modelled from the spec: the rendering \<^verbatim>\<open>date_to_fixed_string\<close> of a date-time in
  the fixed pattern \<^verbatim>\<open>DD/MM/YYYY HH:MM\<close> (24-hour clock, zero-padded, 4-digit year).
  The repository has no such function; the round trip of the specification is stated
  with it.
\<close>

definition date_to_fixed_string :: "datetime \<Rightarrow> string" where
  "date_to_fixed_string d =
     zero_pad 2 (day d) @ ''/'' @ zero_pad 2 (month d) @ ''/'' @ zero_pad 4 (year d) @
     '' '' @ zero_pad 2 (hour d) @ '':'' @ zero_pad 2 (minute d)"

text \<open>
  A date-time that Python can build (\<^verbatim>\<open>_check_date_fields\<close>,
  \<^verbatim>\<open>_check_time_fields\<close>) and that has minute precision.
\<close>

definition minute_datetime :: "datetime \<Rightarrow> bool" where
  "minute_datetime d =
     (check_date_fields (year d) (month d) (day d) \<and>
      0 \<le> hour d \<and> hour d \<le> 23 \<and> 0 \<le> minute d \<and> minute d \<le> 59 \<and>
      second d = 0 \<and> microsecond d = 0)"

text \<open>
  A field of digits as the amended claim on \<open>parse_date\<close> describes it: between lo and
  hi decimal digits.
\<close>

definition number_field :: "nat \<Rightarrow> nat \<Rightarrow> string \<Rightarrow> bool" where
  "number_field lo hi f = (lo \<le> length f \<and> length f \<le> hi \<and> list_all is_digit f)"

text \<open>
  A cell of a table row, as the claims count cells: a \<^verbatim>\<open>td\<close> or \<^verbatim>\<open>th\<close>
  element. A comment between the cells is a child of the row and no cell.
\<close>

definition is_cell :: "element \<Rightarrow> bool" where
  "is_cell e =
     (case e of
        Element t a tx ch ta \<Rightarrow> t = ''td'' \<or> t = ''th''
      | Comment s ta \<Rightarrow> False)"

text \<open>The issues of the rows that parse, in the order of the rows.\<close>

definition issues_of :: "element list \<Rightarrow> issue list" where
  "issues_of rows =
     concat (map (\<lambda>row. case parse_row row of Inl e \<Rightarrow> [] | Inr issue \<Rightarrow> [issue]) rows)"

text \<open>The exception of the first row that does not parse.\<close>

fun first_error :: "element list \<Rightarrow> error option" where
  "first_error [] = None"
| "first_error (row # rows) =
     (case parse_row row of Inl e \<Rightarrow> Some e | Inr issue \<Rightarrow> first_error rows)"

text \<open>The rows of the three tables, in the order in which the extraction reads them.\<close>

definition all_rows :: "element \<Rightarrow> element list" where
  "all_rows tree =
     xpath_rows past_grid tree @ xpath_rows planned_grid tree @ xpath_rows current_grid tree"

text \<open>The table whose rows are appended to \<^verbatim>\<open>issues[k]\<close>.\<close>

definition bucket_grid :: "nat \<Rightarrow> string" where
  "bucket_grid k = (if k = 0 then current_grid else if k = 1 then planned_grid else past_grid)"

section \<open>Example pages\<close>

text \<open>
  A page with one outage table: \<^verbatim>\<open><html><body><table id=G><tbody>\<close> rows
  \<^verbatim>\<open></tbody></table></body></html>\<close>, and a row of five cells
  \<^verbatim>\<open><tr><td>Fault</td><td>CR12345</td><td>\<close>start\<^verbatim>\<open></td><td>\<close>end\<^verbatim>\<open></td><td>X1</td></tr>\<close>.
\<close>

definition cell :: "string \<Rightarrow> element" where
  "cell s = Element ''td'' [] (Some s) [] None"

definition row5 :: "string \<Rightarrow> string \<Rightarrow> element" where
  "row5 s e =
     Element ''tr'' [] None [cell ''Fault'', cell ''CR12345'', cell s, cell e, cell ''X1''] None"

definition row4 :: "string \<Rightarrow> string \<Rightarrow> element" where
  "row4 s e = Element ''tr'' [] None [cell ''Fault'', cell ''CR12345'', cell s, cell e] None"

text \<open>
  Four cells and a comment,
  \<^verbatim>\<open><tr><td>Fault</td><td>CR12345</td><td>\<close>start\<^verbatim>\<open></td><td>\<close>end\<^verbatim>\<open></td><!--X1--></tr>\<close>.
\<close>

definition row4_comment :: "string \<Rightarrow> string \<Rightarrow> element" where
  "row4_comment s e =
     Element ''tr'' [] None
       [cell ''Fault'', cell ''CR12345'', cell s, cell e, Comment ''X1'' None] None"

text \<open>
  Six cells, the sixth holding a table of its own with one row of one cell,
  \<^verbatim>\<open><td><table><tr><td>x</td></tr></table></td>\<close>.
\<close>

definition row6_nested :: "string \<Rightarrow> string \<Rightarrow> element" where
  "row6_nested s e =
     Element ''tr'' [] None
       [cell ''Fault'', cell ''CR12345'', cell s, cell e, cell ''X1'',
        Element ''td'' [] None
          [Element ''table'' [] None [Element ''tr'' [] None [cell ''x''] None] None] None]
       None"

definition row6 :: "string \<Rightarrow> string \<Rightarrow> string \<Rightarrow> element" where
  "row6 s e x =
     Element ''tr'' [] None
       [cell ''Fault'', cell ''CR12345'', cell s, cell e, cell ''X1'', cell x] None"

definition grid_table :: "string \<Rightarrow> element list \<Rightarrow> element" where
  "grid_table gridname rows =
     Element ''table'' [(''id'', gridname)] None [Element ''tbody'' [] None rows None] None"

definition page_of :: "element list \<Rightarrow> element" where
  "page_of tables = Element ''html'' [] None [Element ''body'' [] None tables None] None"

definition page1 :: "string \<Rightarrow> element list \<Rightarrow> element" where
  "page1 gridname rows = page_of [grid_table gridname rows]"

definition issue5 :: "datetime \<Rightarrow> datetime \<Rightarrow> issue" where
  "issue5 s e =
     \<lparr>issue_type = Some ''Fault'', reference = ''CR12345'', start = s, end_time = e,
      codes = Some ''X1''\<rparr>"

definition at_minute :: "int \<Rightarrow> int \<Rightarrow> int \<Rightarrow> int \<Rightarrow> int \<Rightarrow> datetime" where
  "at_minute y m d h mi =
     \<lparr>year = y, month = m, day = d, hour = h, minute = mi, second = 0, microsecond = 0\<rparr>"

definition jan10 :: date where
  "jan10 = \<lparr>year = 2024, month = 1, day = 10\<rparr>"

section \<open>The extraction as a function of the rows\<close>

lemma within_time_gap_iff:
  "within_time_gap today i \<longleftrightarrow>
     toordinal (date_of (start i)) - toordinal today < 2 \<and>
     toordinal today - toordinal (date_of (end_time i)) < 2"
  by (simp add: within_time_gap_def timedelta_lt_def date_sub_def time_gap_def)

lemma list_update_append_twice:
  "xs[k := xs[k := xs ! k @ a] ! k @ b] = xs[k := xs ! k @ a @ b]"
  by (cases "k < length xs") (simp_all add: list_update_beyond)

text \<open>
  A loop over the rows of one table fails with the exception of the first row that does
  not parse; otherwise it appends, in order, the issues that pass the test.
\<close>

lemma parse_rows_eq:
  "parse_rows today k rows issues =
     (case first_error rows of
        Some e \<Rightarrow> Inl e
      | None \<Rightarrow> Inr (issues[k := issues ! k @ filter (within_time_gap today) (issues_of rows)]))"
proof (induction rows arbitrary: issues)
  case Nil
  then show ?case by (simp add: issues_of_def)
next
  case (Cons row rows)
  show ?case
  proof (cases "parse_row row")
    case (Inl e)
    then show ?thesis by simp
  next
    case (Inr i)
    then show ?thesis
      using Cons.IH by (simp add: issues_of_def list_update_append_twice split: option.splits)
  qed
qed

lemma first_error_append:
  "first_error (xs @ ys) = (case first_error xs of Some e \<Rightarrow> Some e | None \<Rightarrow> first_error ys)"
  by (induction xs) (simp_all split: sum.splits)

lemma first_error_None_iff:
  "first_error rows = None \<longleftrightarrow> (\<forall>row \<in> set rows. \<exists>i. parse_row row = Inr i)"
  by (induction rows) (auto split: sum.splits)

lemma parse_page_eq:
  "parse_page today tree =
     (case first_error (all_rows tree) of
        Some e \<Rightarrow> Inl e
      | None \<Rightarrow>
          Inr [filter (within_time_gap today) (issues_of (xpath_rows current_grid tree)),
               filter (within_time_gap today) (issues_of (xpath_rows planned_grid tree)),
               filter (within_time_gap today) (issues_of (xpath_rows past_grid tree))])"
  by (simp add: parse_page_def parse_rows_eq all_rows_def first_error_append split: option.splits)

lemma issues_of_append: "issues_of (xs @ ys) = issues_of xs @ issues_of ys"
  by (simp add: issues_of_def)

lemma mem_issues_of:
  "row \<in> set rows \<Longrightarrow> parse_row row = Inr i \<Longrightarrow> i \<in> set (issues_of rows)"
  by (force simp: issues_of_def)

lemma lt3_cases: "k < 3 \<Longrightarrow> k = 0 \<or> k = 1 \<or> k = (2::nat)"
  by arith

lemma bucket_rows_subset:
  "k < 3 \<Longrightarrow> set (xpath_rows (bucket_grid k) page) \<subseteq> set (all_rows page)"
  by (auto simp: bucket_grid_def all_rows_def)

lemma parse_page_bucket:
  assumes "parse_page today page = Inr issues" and "k < 3"
  shows "issues ! k =
           filter (within_time_gap today) (issues_of (xpath_rows (bucket_grid k) page))"
  using assms lt3_cases [of k]
  by (auto simp: parse_page_eq bucket_grid_def split: option.splits)

lemma parse_page_length:
  "parse_page today page = Inr issues \<Longrightarrow> length issues = 3"
  by (auto simp: parse_page_eq split: option.splits)

section \<open>Rows with too few cells\<close>

text \<open>
  Claim C4, as amended. The claim as written (a row with only 4 cells makes the
  extraction fail) does not hold: the code reads the row by position, and
  \<^verbatim>\<open>row[4]\<close> is the fifth child node, which need not be a cell. The first theorem
  is the counterexample: a row of the past table with four cells and a comment after
  them has only four cells, and the extraction returns its issue, the comment's text
  as the codes.
\<close>

theorem four_cells_and_comment_extracted:
  "length (filter is_cell (children (row4_comment ''10/01/2024 08:00'' ''10/01/2024 18:00''))) = 4 \<and>
   parse_page jan10 (page1 past_grid [row4_comment ''10/01/2024 08:00'' ''10/01/2024 18:00'']) =
     Inr [[], [], [issue5 (at_minute 2024 1 10 8 0) (at_minute 2024 1 10 18 0)]]"
  by code_simp

text \<open>
  Claim C4, the amended statement. When a row of one of the three outage tables has
  only 4 child nodes (cells, comments and every other node counted, as \<^verbatim>\<open>row[i]\<close>
  counts them), the whole extraction fails: \<open>parse_page\<close> returns an exception and no
  list of issues, whatever the other rows and tables hold. In the row itself the read of
  the fifth child raises \<^verbatim>\<open>IndexError\<close>, unless the reference (a comment in the
  second place has no text content) or one of the two dates already failed (then that
  exception is the row's). The exceptions of the rows are what the specification calls
  \<^verbatim>\<open>RowFormatError\<close>.
\<close>

theorem four_cell_row_fails_extraction:
  assumes k: "k < 3"
    and row: "row \<in> set (xpath_rows (bucket_grid k) page)"
    and four: "length (children row) = 4"
  shows "(\<exists>e. parse_page today page = Inl e) \<and>
         parse_row row =
           (case text_content (children row ! 1) of
              Inl e \<Rightarrow> Inl e
            | Inr ref \<Rightarrow>
           (case parse_date (elem_text (children row ! 2)) of
              Inl e \<Rightarrow> Inl e
            | Inr s \<Rightarrow>
                (case parse_date (elem_text (children row ! 3)) of
                   Inl e \<Rightarrow> Inl e
                 | Inr en \<Rightarrow> Inl IndexError)))"
proof -
  have r: "parse_row row =
           (case text_content (children row ! 1) of
              Inl e \<Rightarrow> Inl e
            | Inr ref \<Rightarrow>
           (case parse_date (elem_text (children row ! 2)) of
              Inl e \<Rightarrow> Inl e
            | Inr s \<Rightarrow>
                (case parse_date (elem_text (children row ! 3)) of
                   Inl e \<Rightarrow> Inl e
                 | Inr en \<Rightarrow> Inl IndexError)))"
    using four by (simp add: parse_row_def getitem_def split: sum.splits)
  then have "\<exists>e. parse_row row = Inl e"
    by (auto split: sum.splits)
  moreover have "row \<in> set (all_rows page)"
    using bucket_rows_subset [OF k] row by blast
  ultimately have "\<not> (\<forall>row \<in> set (all_rows page). \<exists>i. parse_row row = Inr i)"
    by force
  then have "first_error (all_rows page) \<noteq> None"
    by (simp only: first_error_None_iff not_False_eq_True)
  then have "\<exists>e. parse_page today page = Inl e"
    by (auto simp: parse_page_eq split: option.splits)
  with r show ?thesis by simp
qed

theorem four_cell_row_fails_extraction_witness:
  "parse_page jan10 (page1 past_grid [row4 ''10/01/2024 08:00'' ''10/01/2024 18:00'']) =
     Inl IndexError \<and>
   parse_row (row4 ''10/01/2024 08:00'' ''10/01/2024 18:00'') = Inl IndexError"
proof -
  let ?row = "row4 ''10/01/2024 08:00'' ''10/01/2024 18:00''"
  have k: "(2::nat) < 3" by simp
  have row: "?row \<in> set (xpath_rows (bucket_grid 2) (page1 past_grid [?row]))"
    by code_simp
  have four: "length (children ?row) = 4" by code_simp
  have t1: "text_content (children ?row ! 1) = Inr ''CR12345''"
    by code_simp
  have d2: "parse_date (elem_text (children ?row ! 2)) = Inr (at_minute 2024 1 10 8 0)"
    by code_simp
  have d3: "parse_date (elem_text (children ?row ! 3)) = Inr (at_minute 2024 1 10 18 0)"
    by code_simp
  have p: "parse_page jan10 (page1 past_grid [?row]) = Inl IndexError" by code_simp
  from four_cell_row_fails_extraction [OF k row four, of jan10] t1 d2 d3 p
  show ?thesis by simp
qed

section \<open>The window around today\<close>

text \<open>
  Claim C6. A row whose dates parse, whose start date is the day after today and whose
  end date is the day before today (so the end lies before the start) passes the test of
  the window and, when the extraction returns, is in the bucket of the table it was read
  from: bucket k for a row of the table \<open>bucket_grid k\<close>.
\<close>

theorem start_tomorrow_end_yesterday_retained:
  assumes ok: "parse_page today page = Inr issues"
    and k: "k < 3"
    and row: "row \<in> set (xpath_rows (bucket_grid k) page)"
    and i: "parse_row row = Inr i"
    and s: "toordinal (date_of (start i)) = toordinal today + 1"
    and e: "toordinal (date_of (end_time i)) = toordinal today - 1"
  shows "within_time_gap today i \<and> i \<in> set (issues ! k)"
proof -
  have w: "within_time_gap today i"
    using s e by (simp add: within_time_gap_iff)
  have "i \<in> set (issues_of (xpath_rows (bucket_grid k) page))"
    using row i by (rule mem_issues_of)
  with w show ?thesis
    by (simp add: parse_page_bucket [OF ok k])
qed

theorem start_tomorrow_end_yesterday_retained_witness:
  "parse_page jan10 (page1 current_grid [row5 ''11/01/2024 08:00'' ''09/01/2024 18:00'']) =
     Inr [[issue5 (at_minute 2024 1 11 8 0) (at_minute 2024 1 9 18 0)], [], []] \<and>
   within_time_gap jan10 (issue5 (at_minute 2024 1 11 8 0) (at_minute 2024 1 9 18 0)) \<and>
   issue5 (at_minute 2024 1 11 8 0) (at_minute 2024 1 9 18 0) \<in>
     set ([[issue5 (at_minute 2024 1 11 8 0) (at_minute 2024 1 9 18 0)], [], []] ! 0)"
proof -
  let ?row = "row5 ''11/01/2024 08:00'' ''09/01/2024 18:00''"
  let ?i = "issue5 (at_minute 2024 1 11 8 0) (at_minute 2024 1 9 18 0)"
  have ok: "parse_page jan10 (page1 current_grid [?row]) = Inr [[?i], [], []]"
    by code_simp
  have k: "(0::nat) < 3" by simp
  have row: "?row \<in> set (xpath_rows (bucket_grid 0) (page1 current_grid [?row]))"
    by code_simp
  have i: "parse_row ?row = Inr ?i" by code_simp
  have s: "toordinal (date_of (start ?i)) = toordinal jan10 + 1" by code_simp
  have e: "toordinal (date_of (end_time ?i)) = toordinal jan10 - 1" by code_simp
  from start_tomorrow_end_yesterday_retained [OF ok k row i s e] ok show ?thesis by simp
qed

section \<open>Cells beyond the fifth\<close>

lemma getitem_take:
  "i < n \<Longrightarrow> getitem xs i = getitem (take n xs) i"
  by (simp add: getitem_def)

lemma parse_row_take5:
  assumes "take 5 (children r) = take 5 (children r')"
  shows "parse_row r = parse_row r'"
proof -
  have "getitem (children r) i = getitem (children r') i" if "i < 5" for i
    using that assms getitem_take [of i 5 "children r"] getitem_take [of i 5 "children r'"]
    by simp
  from this [of 0] this [of 1] this [of 2] this [of 3] this [of 4]
  have "getitem (children r) 0 = getitem (children r') 0"
    and "getitem (children r) 1 = getitem (children r') 1"
    and "getitem (children r) 2 = getitem (children r') 2"
    and "getitem (children r) 3 = getitem (children r') 3"
    and "getitem (children r) 4 = getitem (children r') 4"
    by simp_all
  then show ?thesis
    unfolding parse_row_def by (simp only:)
qed

lemma rows_agree:
  assumes "list_all2 (\<lambda>r r'. take 5 (children r) = take 5 (children r')) rows rows'"
  shows "first_error rows = first_error rows' \<and> issues_of rows = issues_of rows'"
  using assms
proof (induction rule: list_all2_induct)
  case Nil
  then show ?case by simp
next
  case (Cons r rs r' rs')
  then show ?case
    using parse_row_take5 [of r r'] by (simp add: issues_of_def split: sum.splits)
qed

text \<open>
  Claim C10, as amended. The claim as written (two documents whose tables have the same
  rows, agreeing on the first five cells and differing arbitrarily beyond the fifth, give
  the same result) does not hold: a \<^verbatim>\<open>tr\<close> inside a cell is below the same
  \<^verbatim>\<open>tbody\<close>, so the path selects it as a further row of the table. The first theorem
  is the counterexample: two pages whose current table has one row each, the two rows
  with the same first five cells; the sixth cell is a text in one and holds a nested
  table in the other. The first page gives the issue of the row, the second fails with
  \<^verbatim>\<open>IndexError\<close> on the nested row.
\<close>

theorem nested_rows_beyond_fifth_cell:
  "take 5 (children (row6 ''10/01/2024 08:00'' ''10/01/2024 18:00'' ''note'')) =
   take 5 (children (row6_nested ''10/01/2024 08:00'' ''10/01/2024 18:00'')) \<and>
   parse_page jan10
     (page1 current_grid [row6 ''10/01/2024 08:00'' ''10/01/2024 18:00'' ''note'']) =
     Inr [[issue5 (at_minute 2024 1 10 8 0) (at_minute 2024 1 10 18 0)], [], []] \<and>
   parse_page jan10
     (page1 current_grid [row6_nested ''10/01/2024 08:00'' ''10/01/2024 18:00'']) =
     Inl IndexError"
  by code_simp

text \<open>
  Claim C10, the amended statement. The extraction reads only the first five child
  nodes of a row. When in two pages the path of each of the three outage tables selects
  the same number of rows (rows nested inside cells included), and the selected rows
  agree pairwise on their first five child nodes (the nodes with all they contain), the
  extraction on the same day returns the same result for both pages, the same exception
  included, whatever the rows hold beyond the fifth child.
\<close>

theorem cells_beyond_fifth_ignored:
  assumes "list_all2 (\<lambda>r r'. take 5 (children r) = take 5 (children r'))
             (xpath_rows current_grid page) (xpath_rows current_grid page')"
    and "list_all2 (\<lambda>r r'. take 5 (children r) = take 5 (children r'))
             (xpath_rows planned_grid page) (xpath_rows planned_grid page')"
    and "list_all2 (\<lambda>r r'. take 5 (children r) = take 5 (children r'))
             (xpath_rows past_grid page) (xpath_rows past_grid page')"
  shows "parse_page today page = parse_page today page'"
proof -
  from assms rows_agree
  have c: "first_error (xpath_rows current_grid page) = first_error (xpath_rows current_grid page')"
      "issues_of (xpath_rows current_grid page) = issues_of (xpath_rows current_grid page')"
    and p: "first_error (xpath_rows planned_grid page) = first_error (xpath_rows planned_grid page')"
      "issues_of (xpath_rows planned_grid page) = issues_of (xpath_rows planned_grid page')"
    and q: "first_error (xpath_rows past_grid page) = first_error (xpath_rows past_grid page')"
      "issues_of (xpath_rows past_grid page) = issues_of (xpath_rows past_grid page')"
    by blast+
  have "first_error (all_rows page) = first_error (all_rows page')"
    by (simp only: all_rows_def first_error_append c p q)
  then show ?thesis
    by (simp only: parse_page_eq c p q)
qed

theorem cells_beyond_fifth_ignored_witness:
  "parse_page jan10 (page1 current_grid [row5 ''10/01/2024 08:00'' ''10/01/2024 18:00'']) =
   parse_page jan10 (page1 current_grid [row6 ''10/01/2024 08:00'' ''10/01/2024 18:00'' ''note''])
   \<and> page1 current_grid [row5 ''10/01/2024 08:00'' ''10/01/2024 18:00''] \<noteq>
     page1 current_grid [row6 ''10/01/2024 08:00'' ''10/01/2024 18:00'' ''note'']"
proof -
  let ?p = "page1 current_grid [row5 ''10/01/2024 08:00'' ''10/01/2024 18:00'']"
  let ?q = "page1 current_grid [row6 ''10/01/2024 08:00'' ''10/01/2024 18:00'' ''note'']"
  have c: "list_all2 (\<lambda>r r'. take 5 (children r) = take 5 (children r'))
             (xpath_rows current_grid ?p) (xpath_rows current_grid ?q)"
    by code_simp
  have p: "list_all2 (\<lambda>r r'. take 5 (children r) = take 5 (children r'))
             (xpath_rows planned_grid ?p) (xpath_rows planned_grid ?q)"
    by code_simp
  have q: "list_all2 (\<lambda>r r'. take 5 (children r) = take 5 (children r'))
             (xpath_rows past_grid ?p) (xpath_rows past_grid ?q)"
    by code_simp
  have ne: "?p \<noteq> ?q" by (simp add: page1_def page_of_def grid_table_def row5_def row6_def)
  from cells_beyond_fifth_ignored [OF c p q, of jan10] ne show ?thesis by simp
qed

section \<open>The test of the window\<close>

text \<open>
  Claim C1. When every row of the three outage tables parses, the extraction returns
  the three buckets, and the bucket of a table holds exactly the issues of its rows with
  (start date - today) < 2 days and (today - end date) < 2 days. Both comparisons are
  strict and are on the ordinals of the calendar dates, the time of day plays no part. A
  row that fails one of the two conditions is left out of the list; it does not make the
  extraction fail.
\<close>

theorem recency_filter_strict_window:
  assumes "\<forall>row \<in> set (all_rows page). \<exists>i. parse_row row = Inr i"
  shows "parse_page today page =
     Inr (map (\<lambda>k. filter (\<lambda>i. toordinal (date_of (start i)) - toordinal today < 2 \<and>
                                 toordinal today - toordinal (date_of (end_time i)) < 2)
                         (issues_of (xpath_rows (bucket_grid k) page))) [0, 1, 2])"
proof -
  have "first_error (all_rows page) = None"
    using assms by (simp only: first_error_None_iff)
  moreover have "within_time_gap today =
      (\<lambda>i. toordinal (date_of (start i)) - toordinal today < 2 \<and>
           toordinal today - toordinal (date_of (end_time i)) < 2)"
    by (rule ext) (simp add: within_time_gap_iff)
  ultimately show ?thesis
    by (simp add: parse_page_eq bucket_grid_def)
qed

theorem recency_filter_strict_window_witness:
  "parse_page jan10
     (page1 planned_grid [row5 ''11/01/2024 08:00'' ''12/01/2024 18:00'',
                          row5 ''12/01/2024 08:00'' ''12/01/2024 18:00'',
                          row5 ''05/01/2024 08:00'' ''09/01/2024 18:00'',
                          row5 ''05/01/2024 08:00'' ''08/01/2024 18:00'']) =
   Inr [[], [issue5 (at_minute 2024 1 11 8 0) (at_minute 2024 1 12 18 0),
             issue5 (at_minute 2024 1 5 8 0) (at_minute 2024 1 9 18 0)], []]"
proof -
  let ?p = "page1 planned_grid [row5 ''11/01/2024 08:00'' ''12/01/2024 18:00'',
                          row5 ''12/01/2024 08:00'' ''12/01/2024 18:00'',
                          row5 ''05/01/2024 08:00'' ''09/01/2024 18:00'',
                          row5 ''05/01/2024 08:00'' ''08/01/2024 18:00'']"
  have "first_error (all_rows ?p) = None" by code_simp
  then have h: "\<forall>row \<in> set (all_rows ?p). \<exists>i. parse_row row = Inr i"
    by (simp only: first_error_None_iff)
  have "Inr (map (\<lambda>k. filter (\<lambda>i. toordinal (date_of (start i)) - toordinal jan10 < 2 \<and>
                                 toordinal jan10 - toordinal (date_of (end_time i)) < 2)
                         (issues_of (xpath_rows (bucket_grid k) ?p))) [0, 1, 2]) =
    (Inr [[], [issue5 (at_minute 2024 1 11 8 0) (at_minute 2024 1 12 18 0),
             issue5 (at_minute 2024 1 5 8 0) (at_minute 2024 1 9 18 0)], []] :: error + issue list list)"
    by code_simp
  with recency_filter_strict_window [OF h, of jan10] show ?thesis by simp
qed

text \<open>
  Claim C2, as amended. The claim as written (a start date no later than today + 2 days
  is retained) fails: the comparison with the gap of two days is strict, so a row that
  starts on today + 2 days is dropped. The first theorem is the counterexample: on
  10 January 2024 a row of the current table that starts on 12 January and ends on
  10 January parses, and the extraction returns three empty buckets.
\<close>

theorem start_in_two_days_dropped:
  "parse_row (row5 ''12/01/2024 08:00'' ''10/01/2024 18:00'') =
     Inr (issue5 (at_minute 2024 1 12 8 0) (at_minute 2024 1 10 18 0)) \<and>
   toordinal (date_of (start (issue5 (at_minute 2024 1 12 8 0) (at_minute 2024 1 10 18 0)))) =
     toordinal jan10 + 2 \<and>
   toordinal jan10 - 2 \<le>
     toordinal (date_of (end_time (issue5 (at_minute 2024 1 12 8 0) (at_minute 2024 1 10 18 0)))) \<and>
   parse_page jan10 (page1 current_grid [row5 ''12/01/2024 08:00'' ''10/01/2024 18:00'']) =
     Inr [[], [], []]"
  by code_simp

text \<open>
  Claim C2, the amended statement. When the extraction returns, bucket k holds exactly
  the issues of the rows of its table whose start date is no later than today + 1 day
  and whose end date is no earlier than today - 1 day; no retained issue starts on
  today + 2 days.
\<close>

theorem window_reaches_one_day:
  assumes ok: "parse_page today page = Inr issues" and k: "k < 3"
  shows "issues ! k =
           filter (\<lambda>i. toordinal (date_of (start i)) \<le> toordinal today + 1 \<and>
                       toordinal today - 1 \<le> toordinal (date_of (end_time i)))
                  (issues_of (xpath_rows (bucket_grid k) page)) \<and>
         (\<forall>i \<in> set (issues ! k). toordinal (date_of (start i)) \<noteq> toordinal today + 2)"
proof -
  have "within_time_gap today =
      (\<lambda>i. toordinal (date_of (start i)) \<le> toordinal today + 1 \<and>
           toordinal today - 1 \<le> toordinal (date_of (end_time i)))"
    by (rule ext) (auto simp: within_time_gap_iff)
  then have "issues ! k =
           filter (\<lambda>i. toordinal (date_of (start i)) \<le> toordinal today + 1 \<and>
                       toordinal today - 1 \<le> toordinal (date_of (end_time i)))
                  (issues_of (xpath_rows (bucket_grid k) page))"
    using parse_page_bucket [OF ok k] by simp
  then show ?thesis by auto
qed

theorem window_reaches_one_day_witness:
  "parse_page jan10 (page1 current_grid [row5 ''12/01/2024 08:00'' ''10/01/2024 18:00'',
                                         row5 ''11/01/2024 08:00'' ''09/01/2024 18:00'']) =
     Inr [[issue5 (at_minute 2024 1 11 8 0) (at_minute 2024 1 9 18 0)], [], []] \<and>
   [issue5 (at_minute 2024 1 11 8 0) (at_minute 2024 1 9 18 0)] =
     filter (\<lambda>i. toordinal (date_of (start i)) \<le> toordinal jan10 + 1 \<and>
                 toordinal jan10 - 1 \<le> toordinal (date_of (end_time i)))
       (issues_of (xpath_rows current_grid
          (page1 current_grid [row5 ''12/01/2024 08:00'' ''10/01/2024 18:00'',
                               row5 ''11/01/2024 08:00'' ''09/01/2024 18:00''])))"
proof -
  let ?p = "page1 current_grid [row5 ''12/01/2024 08:00'' ''10/01/2024 18:00'',
                                         row5 ''11/01/2024 08:00'' ''09/01/2024 18:00'']"
  have ok: "parse_page jan10 ?p =
     Inr [[issue5 (at_minute 2024 1 11 8 0) (at_minute 2024 1 9 18 0)], [], []]"
    by code_simp
  have k: "(0::nat) < 3" by simp
  from window_reaches_one_day [OF ok k] ok show ?thesis by (simp add: bucket_grid_def)
qed

section \<open>Buckets and tables\<close>

text \<open>
  Claim C3. The result has three buckets (current, planned, past). Bucket k holds the
  issues of the rows of the table \<open>bucket_grid k\<close> that pass the test of the window,
  and nothing else: the bucket of an issue is the table its row was read from, the same
  test is applied in every table, and the dates of the issue do not choose the bucket.
  Each bucket is a subsequence of the issues of its table's rows, so the order of the
  rows is kept. The three buckets together have one entry for each retained row.
\<close>

theorem buckets_follow_tables:
  assumes ok: "parse_page today page = Inr issues"
  shows "length issues = 3 \<and>
         (\<forall>k<3. issues ! k =
                   filter (within_time_gap today) (issues_of (xpath_rows (bucket_grid k) page)) \<and>
                 subseq (issues ! k) (issues_of (xpath_rows (bucket_grid k) page))) \<and>
         length (concat issues) =
           length (filter (within_time_gap today) (issues_of (all_rows page)))"
proof -
  have b: "issues ! k =
             filter (within_time_gap today) (issues_of (xpath_rows (bucket_grid k) page))"
    if "k < 3" for k
    using ok that by (rule parse_page_bucket)
  have "issues = [filter (within_time_gap today) (issues_of (xpath_rows current_grid page)),
               filter (within_time_gap today) (issues_of (xpath_rows planned_grid page)),
               filter (within_time_gap today) (issues_of (xpath_rows past_grid page))]"
    using ok by (auto simp: parse_page_eq split: option.splits)
  then have "length (concat issues) =
           length (filter (within_time_gap today) (issues_of (all_rows page)))"
    by (simp add: all_rows_def issues_of_append)
  with b parse_page_length [OF ok] show ?thesis by simp
qed

theorem buckets_follow_tables_witness:
  "parse_page jan10
     (page_of [grid_table current_grid [row5 ''10/01/2024 08:00'' ''10/01/2024 18:00''],
               grid_table planned_grid [row5 ''11/01/2024 08:00'' ''12/01/2024 18:00'',
                                        row5 ''14/01/2024 08:00'' ''14/01/2024 18:00'',
                                        row5 ''10/01/2024 09:00'' ''10/01/2024 10:00''],
               grid_table past_grid [row5 ''09/01/2024 08:00'' ''09/01/2024 18:00'']]) =
   Inr [[issue5 (at_minute 2024 1 10 8 0) (at_minute 2024 1 10 18 0)],
        [issue5 (at_minute 2024 1 11 8 0) (at_minute 2024 1 12 18 0),
         issue5 (at_minute 2024 1 10 9 0) (at_minute 2024 1 10 10 0)],
        [issue5 (at_minute 2024 1 9 8 0) (at_minute 2024 1 9 18 0)]] \<and>
   subseq [issue5 (at_minute 2024 1 11 8 0) (at_minute 2024 1 12 18 0),
           issue5 (at_minute 2024 1 10 9 0) (at_minute 2024 1 10 10 0)]
          (issues_of (xpath_rows planned_grid
     (page_of [grid_table current_grid [row5 ''10/01/2024 08:00'' ''10/01/2024 18:00''],
               grid_table planned_grid [row5 ''11/01/2024 08:00'' ''12/01/2024 18:00'',
                                        row5 ''14/01/2024 08:00'' ''14/01/2024 18:00'',
                                        row5 ''10/01/2024 09:00'' ''10/01/2024 10:00''],
               grid_table past_grid [row5 ''09/01/2024 08:00'' ''09/01/2024 18:00'']])))"
proof -
  let ?p = "page_of [grid_table current_grid [row5 ''10/01/2024 08:00'' ''10/01/2024 18:00''],
               grid_table planned_grid [row5 ''11/01/2024 08:00'' ''12/01/2024 18:00'',
                                        row5 ''14/01/2024 08:00'' ''14/01/2024 18:00'',
                                        row5 ''10/01/2024 09:00'' ''10/01/2024 10:00''],
               grid_table past_grid [row5 ''09/01/2024 08:00'' ''09/01/2024 18:00'']]"
  let ?I = "[[issue5 (at_minute 2024 1 10 8 0) (at_minute 2024 1 10 18 0)],
        [issue5 (at_minute 2024 1 11 8 0) (at_minute 2024 1 12 18 0),
         issue5 (at_minute 2024 1 10 9 0) (at_minute 2024 1 10 10 0)],
        [issue5 (at_minute 2024 1 9 8 0) (at_minute 2024 1 9 18 0)]]"
  have ok: "parse_page jan10 ?p = Inr ?I" by code_simp
  have one: "(1::nat) < 3" by simp
  from buckets_follow_tables [OF ok] one
  have "subseq (?I ! 1) (issues_of (xpath_rows (bucket_grid 1) ?p))"
    by blast
  with ok show ?thesis by (simp add: bucket_grid_def)
qed

section \<open>A table that is absent or has no rows\<close>

lemma walk_no_grid:
  "\<forall>e \<in> set (iter tree). \<not> is_grid g e \<Longrightarrow> \<not> in_table \<Longrightarrow> \<not> in_tbody \<Longrightarrow>
   walk g in_table in_tbody tree = []"
proof (induction g in_table in_tbody tree rule: walk.induct)
  case (1 gridname in_table in_tbody t a tx ch ta)
  have "walk gridname False False c = []" if "c \<in> set ch" for c
  proof -
    have "\<forall>e \<in> set (iter c). \<not> is_grid gridname e"
      using "1.prems"(1) that by auto
    moreover have "\<not> is_grid gridname (Element t a tx ch ta)"
      using "1.prems"(1) by simp
    ultimately show ?thesis
      using "1.IH" [OF that] "1.prems"(2,3) by simp
  qed
  moreover have "\<not> is_grid gridname (Element t a tx ch ta)"
    using "1.prems"(1) by simp
  ultimately show ?case
    using "1.prems"(2,3) by simp
next
  case (2 gridname in_table in_tbody s ta)
  show ?case by simp
qed

lemma absent_table_no_rows:
  "\<forall>e \<in> set (iter page). \<not> is_grid g e \<Longrightarrow> xpath_rows g page = []"
  by (simp add: xpath_rows_def walk_no_grid)

text \<open>
  Claim C7. When the table of bucket k is absent from the page (no table element has
  its id), or is present and has no \<^verbatim>\<open>tr\<close> below a \<^verbatim>\<open>tbody\<close>, the loop over
  that table raises nothing and appends nothing, and the result of the extraction is
  decided by the other two tables alone: it is the exception of the first of their rows
  that does not parse, and otherwise the list with the empty bucket k and the buckets of
  the other two tables as they are filled from their own rows. So the extraction
  succeeds with an empty bucket k whenever the rows that the page has parse.
\<close>

theorem absent_table_empty_bucket:
  assumes k: "k < 3"
    and absent: "(\<forall>e \<in> set (iter page). \<not> is_grid (bucket_grid k) e) \<or>
                 xpath_rows (bucket_grid k) page = []"
  shows "parse_rows today k (xpath_rows (bucket_grid k) page) issues = Inr issues \<and>
         parse_page today page =
           (case first_error (concat (map (\<lambda>j. xpath_rows (bucket_grid j) page)
                                         (removeAll k [2, 1, 0]))) of
              Some e \<Rightarrow> Inl e
            | None \<Rightarrow>
                Inr (map (\<lambda>j. if j = k then []
                               else filter (within_time_gap today)
                                      (issues_of (xpath_rows (bucket_grid j) page)))
                         [0, 1, 2])) \<and>
         ((\<forall>row \<in> set (all_rows page). \<exists>i. parse_row row = Inr i) \<longrightarrow>
            (\<exists>res. parse_page today page = Inr res \<and> res ! k = []))"
proof -
  have e: "xpath_rows (bucket_grid k) page = []"
    using absent absent_table_no_rows by blast
  have 1: "parse_rows today k (xpath_rows (bucket_grid k) page) issues = Inr issues"
    by (simp add: e)
  from lt3_cases [OF k] e have 2: "parse_page today page =
           (case first_error (concat (map (\<lambda>j. xpath_rows (bucket_grid j) page)
                                         (removeAll k [2, 1, 0]))) of
              Some e \<Rightarrow> Inl e
            | None \<Rightarrow>
                Inr (map (\<lambda>j. if j = k then []
                               else filter (within_time_gap today)
                                      (issues_of (xpath_rows (bucket_grid j) page)))
                         [0, 1, 2]))"
    by (auto simp: parse_page_eq all_rows_def bucket_grid_def issues_of_def first_error_append
        split: option.splits)
  have 3: "\<exists>res. parse_page today page = Inr res \<and> res ! k = []"
    if "\<forall>row \<in> set (all_rows page). \<exists>i. parse_row row = Inr i"
  proof -
    from that have "first_error (all_rows page) = None"
      by (simp only: first_error_None_iff)
    then obtain res where r: "parse_page today page = Inr res"
      by (simp add: parse_page_eq)
    from parse_page_bucket [OF r k] have "res ! k = []"
      by (simp add: e issues_of_def)
    with r show ?thesis by blast
  qed
  from 1 2 3 show ?thesis by blast
qed

theorem absent_table_empty_bucket_witness:
  "parse_rows jan10 0
     (xpath_rows (bucket_grid 0) (page1 planned_grid [row5 ''11/01/2024 08:00'' ''12/01/2024 18:00'']))
     [[], [], []] = Inr [[], [], []] \<and>
   parse_page jan10 (page1 planned_grid [row5 ''11/01/2024 08:00'' ''12/01/2024 18:00'']) =
     Inr [[], [issue5 (at_minute 2024 1 11 8 0) (at_minute 2024 1 12 18 0)], []] \<and>
   (\<exists>res. parse_page jan10
            (page1 planned_grid [row5 ''11/01/2024 08:00'' ''12/01/2024 18:00'']) = Inr res \<and>
          res ! 0 = [])"
proof -
  let ?p = "page1 planned_grid [row5 ''11/01/2024 08:00'' ''12/01/2024 18:00'']"
  have k: "(0::nat) < 3" by simp
  have "first_error (all_rows ?p) = None" by code_simp
  then have rows: "\<forall>row \<in> set (all_rows ?p). \<exists>i. parse_row row = Inr i"
    by (simp only: first_error_None_iff)
  have "\<forall>e \<in> set (iter ?p). \<not> is_grid (bucket_grid 0) e" by code_simp
  then have a: "(\<forall>e \<in> set (iter ?p). \<not> is_grid (bucket_grid 0) e) \<or>
                 xpath_rows (bucket_grid 0) ?p = []" by (rule disjI1)
  have "(case first_error (concat (map (\<lambda>j. xpath_rows (bucket_grid j) ?p)
                                         (removeAll 0 [2, 1, 0]))) of
              Some e \<Rightarrow> Inl e
            | None \<Rightarrow>
                Inr (map (\<lambda>j. if j = 0 then []
                               else filter (within_time_gap jan10)
                                      (issues_of (xpath_rows (bucket_grid j) ?p)))
                         [0, 1, 2])) =
        Inr [[], [issue5 (at_minute 2024 1 11 8 0) (at_minute 2024 1 12 18 0)], []]"
    by code_simp
  with absent_table_empty_bucket [OF k a, of jan10 "[[], [], []]"] rows show ?thesis by simp
qed

section \<open>The details link of the report\<close>

lemma slice_from_drop: "slice_from i s = drop i s"
proof -
  have "drop (min i (length s)) s = drop (min i (length s)) (map (nth s) [0..<length s])"
    by (simp only: map_nth)
  also have "\<dots> = map (nth s) [min i (length s)..<length s]"
    by (simp add: drop_map)
  finally show ?thesis
    by (simp add: slice_from_def Let_def min_def split: if_splits)
qed

text \<open>
  Claim C9. The suffix of the details link is the reference without its first two
  characters, for every reference; for a reference of fewer than two characters it is
  the empty string. The report of a list of three buckets, and so the report of every
  result of the extraction, ends without an exception.
\<close>

theorem details_suffix_total:
  "outage_id r = drop 2 r \<and>
   (length r < 2 \<longrightarrow> outage_id r = []) \<and>
   (3 \<le> length issues \<longrightarrow> snd (report issues) = None) \<and>
   (parse_page today page = Inr issues \<longrightarrow> snd (report issues) = None)"
proof -
  have 1: "outage_id r = drop 2 r"
    by (simp add: outage_id_def slice_from_drop)
  have 2: "snd (report issues) = None" if "3 \<le> length issues"
    using that by (auto simp: report_def getitem_def Let_def)
  have 3: "snd (report issues) = None" if "parse_page today page = Inr issues"
    using 2 parse_page_length [OF that] by simp
  from 1 2 3 show ?thesis by simp
qed

theorem details_suffix_total_witness:
  "outage_id ''C'' = [] \<and>
   report [[issue5 (at_minute 2024 1 10 8 0) (at_minute 2024 1 10 18 0)\<lparr>reference := ''C''\<rparr>],
           [issue5 (at_minute 2024 1 10 8 0) (at_minute 2024 1 10 18 0)\<lparr>reference := ''C''\<rparr>], []] =
     ([''Outage current at 2024-01-10T08:00:00'',
       ''Outage planned at 2024-01-10T08:00:00'',
       ''Outage C planned to start at 2024-01-10T08:00:00 and end at 2024-01-10T18:00:00. Hopefully check reference C at https://status.zen.co.uk/broadband/maintenance-outage-details.aspx?reference=''],
      None)"
proof -
  let ?I = "[[issue5 (at_minute 2024 1 10 8 0) (at_minute 2024 1 10 18 0)\<lparr>reference := ''C''\<rparr>],
           [issue5 (at_minute 2024 1 10 8 0) (at_minute 2024 1 10 18 0)\<lparr>reference := ''C''\<rparr>], []]"
  have l: "length ''C'' < 2" by simp
  have n: "3 \<le> length ?I" by simp
  have r: "fst (report ?I) = [''Outage current at 2024-01-10T08:00:00'',
       ''Outage planned at 2024-01-10T08:00:00'',
       ''Outage C planned to start at 2024-01-10T08:00:00 and end at 2024-01-10T18:00:00. Hopefully check reference C at https://status.zen.co.uk/broadband/maintenance-outage-details.aspx?reference='']"
    by code_simp
  from details_suffix_total [of "''C''" ?I] l n have "outage_id ''C'' = []" and "snd (report ?I) = None"
    by simp_all
  with r show ?thesis by (simp add: prod_eq_iff)
qed

section \<open>parse\_date on the fixed pattern\<close>

text \<open>Digits and their characters.\<close>

lemma of_char_digit_char: "a < 10 \<Longrightarrow> (of_char (digit_char a) :: nat) = 48 + a"
  by (simp add: digit_char_def)

lemma digit_char_eq_iff: "a < 10 \<Longrightarrow> digit_char a = c \<longleftrightarrow> (of_char c :: nat) = 48 + a"
proof -
  assume a: "a < 10"
  have "digit_char a = c \<longleftrightarrow> (of_char (digit_char a) :: nat) = of_char c"
    by (simp only: of_char_eq_iff)
  with of_char_digit_char [OF a] show ?thesis by auto
qed

lemma digit_char_0: "digit_char 0 = CHR ''0''"
  by (simp add: digit_char_eq_iff)

lemma is_digit_digit_char: "a < 10 \<Longrightarrow> is_digit (digit_char a)"
  by (simp add: is_digit_def in_range_def of_char_digit_char)

lemma in_range_digit_char:
  "a < 10 \<Longrightarrow> in_range lo hi (digit_char a) \<longleftrightarrow> (of_char lo :: nat) \<le> 48 + a \<and> 48 + a \<le> (of_char hi :: nat)"
  by (simp add: in_range_def of_char_digit_char)

lemma not_space_digit_char: "a < 10 \<Longrightarrow> \<not> is_space (digit_char a)"
  by (simp add: is_space_def of_char_digit_char)

lemma digit_value_digit_char: "a < 10 \<Longrightarrow> digit_value (digit_char a) = int a"
  by (simp add: digit_value_def of_char_digit_char)

declare decimal.simps [simp del]

lemma decimal_small: "k < 10 \<Longrightarrow> decimal k = [digit_char k]"
  by (subst decimal.simps) simp

lemma decimal_two: "10 \<le> k \<Longrightarrow> k < 100 \<Longrightarrow> decimal k = [digit_char (k div 10), digit_char (k mod 10)]"
  by (subst decimal.simps) (simp add: decimal_small)


lemma decimal_three:
  "100 \<le> k \<Longrightarrow> k < 1000 \<Longrightarrow>
   decimal k = [digit_char (k div 100), digit_char (k div 10 mod 10), digit_char (k mod 10)]"
  by (subst decimal.simps) (simp add: decimal_two div_mult2_eq [symmetric])

lemma decimal_four:
  "1000 \<le> k \<Longrightarrow> k < 10000 \<Longrightarrow>
   decimal k = [digit_char (k div 1000), digit_char (k div 100 mod 10),
                digit_char (k div 10 mod 10), digit_char (k mod 10)]"
  by (subst decimal.simps) (simp add: decimal_three div_mult2_eq [symmetric])

lemma zero_pad2:
  assumes "0 \<le> n" and "n \<le> 99"
  shows "zero_pad 2 n = [digit_char (nat n div 10), digit_char (nat n mod 10)]"
proof (cases "nat n < 10")
  case True
  then show ?thesis
    using assms by (simp add: zero_pad_def decimal_small digit_char_0)
next
  case False
  then show ?thesis
    using assms by (simp add: zero_pad_def decimal_two)
qed

lemma zero_pad4:
  assumes "0 \<le> n" and "n \<le> 9999"
  shows "zero_pad 4 n = [digit_char (nat n div 1000), digit_char (nat n div 100 mod 10),
                         digit_char (nat n div 10 mod 10), digit_char (nat n mod 10)]"
proof -
  consider "nat n < 10" | "10 \<le> nat n" "nat n < 100" | "100 \<le> nat n" "nat n < 1000"
    | "1000 \<le> nat n" "nat n < 10000"
    using assms by linarith
  then show ?thesis
  proof cases
    case 1
    then show ?thesis
      using assms by (simp add: zero_pad_def decimal_small digit_char_0 numeral_3_eq_3)
  next
    case 2
    then show ?thesis
      using assms by (simp add: zero_pad_def decimal_two digit_char_0 numeral_2_eq_2)
  next
    case 3
    then show ?thesis
      using assms by (simp add: zero_pad_def decimal_three digit_char_0)
  next
    case 4
    then show ?thesis
      using assms by (simp add: zero_pad_def decimal_four)
  qed
qed

lemmas re_defs = re_alt_def re_seq_def re_class_def re_lit_def
lemmas digit_simps = in_range_digit_char is_digit_digit_char digit_char_eq_iff
  not_space_digit_char digit_value_digit_char

lemma re_M_two:
  "a \<le> 5 \<Longrightarrow> b < 10 \<Longrightarrow>
   \<exists>xs. re_M (digit_char a # digit_char b # r) = ([digit_char a, digit_char b], r) # xs"
  by (simp add: re_M_def re_defs digit_simps)

lemma re_H_two:
  "10 * a + b \<le> 23 \<Longrightarrow> b < 10 \<Longrightarrow>
   \<exists>xs. re_H (digit_char a # digit_char b # r) = ([digit_char a, digit_char b], r) # xs"
  by (simp add: re_H_def re_defs digit_simps)

lemma re_m_two:
  "1 \<le> 10 * a + b \<Longrightarrow> 10 * a + b \<le> 12 \<Longrightarrow> b < 10 \<Longrightarrow>
   \<exists>xs. re_m (digit_char a # digit_char b # r) = ([digit_char a, digit_char b], r) # xs"
  by (simp add: re_m_def re_defs digit_simps)

lemma re_d_two:
  "1 \<le> 10 * a + b \<Longrightarrow> 10 * a + b \<le> 31 \<Longrightarrow> b < 10 \<Longrightarrow>
   \<exists>xs. re_d (digit_char a # digit_char b # r) = ([digit_char a, digit_char b], r) # xs"
  by (simp add: re_d_def re_defs digit_simps)

lemma re_Y_four:
  "a < 10 \<Longrightarrow> b < 10 \<Longrightarrow> c < 10 \<Longrightarrow> d < 10 \<Longrightarrow>
   re_Y (digit_char a # digit_char b # digit_char c # digit_char d # r) =
     [([digit_char a, digit_char b, digit_char c, digit_char d], r)]"
  by (simp add: re_Y_def re_defs digit_simps)

lemma py_int_two:
  "a < 10 \<Longrightarrow> b < 10 \<Longrightarrow> py_int [digit_char a, digit_char b] = int (10 * a + b)"
  by (simp add: py_int_def strip_def digit_simps)

lemma py_int_four:
  "a < 10 \<Longrightarrow> b < 10 \<Longrightarrow> c < 10 \<Longrightarrow> d < 10 \<Longrightarrow>
   py_int [digit_char a, digit_char b, digit_char c, digit_char d] =
     int (1000 * a + 100 * b + 10 * c + d)"
  by (simp add: py_int_def strip_def digit_simps)


lemma re_lit_hd: "re_lit c (c # r) = [([c], r)]"
  by (simp add: re_defs)

lemma is_space_space: "is_space CHR '' ''"
  by (simp add: is_space_def)

lemma re_plus_one_space:
  "a < 10 \<Longrightarrow> re_plus is_space (CHR '' '' # digit_char a # r) = [('' '', digit_char a # r)]"
  by (simp add: not_space_digit_char is_space_space)

lemma format_regex_match_fixed:
  assumes d: "1 \<le> 10 * d1 + d2" "10 * d1 + d2 \<le> 31" "d2 < 10"
    and m: "1 \<le> 10 * m1 + m2" "10 * m1 + m2 \<le> 12" "m2 < 10"
    and y: "y1 < 10" "y2 < 10" "y3 < 10" "y4 < 10"
    and h: "10 * h1 + h2 \<le> 23" "h2 < 10"
    and n: "n1 \<le> 5" "n2 < 10"
  shows "\<exists>xs. format_regex_match
          ([digit_char d1, digit_char d2] @ ''/'' @ [digit_char m1, digit_char m2] @ ''/'' @
           [digit_char y1, digit_char y2, digit_char y3, digit_char y4] @ '' '' @
           [digit_char h1, digit_char h2] @ '':'' @ [digit_char n1, digit_char n2]) =
         (([digit_char d1, digit_char d2], [digit_char m1, digit_char m2],
           [digit_char y1, digit_char y2, digit_char y3, digit_char y4],
           [digit_char h1, digit_char h2], [digit_char n1, digit_char n2]), []) # xs"
proof -
  have h1: "h1 < 10" using h by simp
  let ?r8 = "[digit_char n1, digit_char n2]"
  let ?r6 = "digit_char h1 # digit_char h2 # CHR '':'' # ?r8"
  let ?r4 = "digit_char y1 # digit_char y2 # digit_char y3 # digit_char y4 # CHR '' '' # ?r6"
  let ?r2 = "digit_char m1 # digit_char m2 # CHR ''/'' # ?r4"
  let ?r0 = "digit_char d1 # digit_char d2 # CHR ''/'' # ?r2"
  obtain a where a: "re_d ?r0 = ([digit_char d1, digit_char d2], CHR ''/'' # ?r2) # a"
    using re_d_two [OF d] by blast
  obtain b where b: "re_m ?r2 = ([digit_char m1, digit_char m2], CHR ''/'' # ?r4) # b"
    using re_m_two [OF m] by blast
  have c: "re_Y ?r4 = [([digit_char y1, digit_char y2, digit_char y3, digit_char y4], CHR '' '' # ?r6)]"
    using re_Y_four [OF y] by blast
  have w: "re_plus is_space (CHR '' '' # ?r6) = [('' '', ?r6)]"
    using re_plus_one_space [OF h1] by blast
  obtain e where e: "re_H ?r6 = ([digit_char h1, digit_char h2], CHR '':'' # ?r8) # e"
    using re_H_two [OF h] by blast
  obtain f where f: "re_M ?r8 = ([digit_char n1, digit_char n2], []) # f"
    using re_M_two [OF n] by blast
  show ?thesis
    unfolding format_regex_match_def
    by (simp add: a b c w e f re_lit_hd del: re_plus.simps)
qed


lemma days_in_month_le_31:
  assumes "1 \<le> m" and "m \<le> 12"
  shows "days_in_month y m \<le> 31"
proof -
  from assms have "m = 1 \<or> m = 2 \<or> m = 3 \<or> m = 4 \<or> m = 5 \<or> m = 6 \<or> m = 7 \<or> m = 8 \<or>
      m = 9 \<or> m = 10 \<or> m = 11 \<or> m = 12"
    by arith
  then show ?thesis
    by (auto simp: days_in_month_def DAYS_IN_MONTH_def)
qed

lemma four_digits:
  "1000 * (k div 1000) + 100 * (k div 100 mod 10) + 10 * (k div 10 mod 10) + k mod 10 = (k::nat)"
proof -
  define P where "P = k div 10"
  define Q where "Q = k div 100"
  have p: "k = 10 * P + k mod 10"
    by (simp add: P_def)
  have "P div 10 = Q"
    by (simp add: P_def Q_def div_mult2_eq [symmetric])
  then have q: "P = 10 * Q + P mod 10"
    by (metis mult_div_mod_eq)
  have "Q div 10 = k div 1000"
    by (simp add: Q_def div_mult2_eq [symmetric])
  then have r: "Q = 10 * (k div 1000) + Q mod 10"
    by (metis mult_div_mod_eq)
  have "1000 * (k div 1000) + 100 * (Q mod 10) + 10 * (P mod 10) + k mod 10 = k"
    using p q r by linarith
  then show ?thesis
    by (simp only: P_def Q_def)
qed

lemma strptime_fixed_string:
  assumes v: "minute_datetime d"
  shows "strptime (date_to_fixed_string d) = Inr d"
proof -
  from v have c: "check_date_fields (year d) (month d) (day d)"
    and t: "0 \<le> hour d" "hour d \<le> 23" "0 \<le> minute d" "minute d \<le> 59"
    and z: "second d = 0" "microsecond d = 0"
    by (simp_all add: minute_datetime_def)
  from c have y: "1 \<le> year d" "year d \<le> 9999" and m: "1 \<le> month d" "month d \<le> 12"
    and dd: "1 \<le> day d" "day d \<le> days_in_month (year d) (month d)"
    by (simp_all add: check_date_fields_def)
  from dd(2) days_in_month_le_31 [OF m, of "year d"] have d31: "day d \<le> 31" by simp
  define D where "D = nat (day d)"
  define M where "M = nat (month d)"
  define Y where "Y = nat (year d)"
  define H where "H = nat (hour d)"
  define N where "N = nat (minute d)"
  have bounds: "1 \<le> D" "D \<le> 31" "1 \<le> M" "M \<le> 12" "1 \<le> Y" "Y \<le> 9999" "H \<le> 23" "N \<le> 59"
    and ints: "int D = day d" "int M = month d" "int Y = year d" "int H = hour d" "int N = minute d"
    using y m dd d31 t by (simp_all add: D_def M_def Y_def H_def N_def)
  have s: "date_to_fixed_string d =
      [digit_char (D div 10), digit_char (D mod 10)] @ ''/'' @
      [digit_char (M div 10), digit_char (M mod 10)] @ ''/'' @
      [digit_char (Y div 1000), digit_char (Y div 100 mod 10), digit_char (Y div 10 mod 10),
       digit_char (Y mod 10)] @ '' '' @
      [digit_char (H div 10), digit_char (H mod 10)] @ '':'' @
      [digit_char (N div 10), digit_char (N mod 10)]"
    using y m dd d31 t
    by (simp add: date_to_fixed_string_def zero_pad2 zero_pad4 D_def M_def Y_def H_def N_def)
  have e: "10 * (D div 10) + D mod 10 = D" "10 * (M div 10) + M mod 10 = M"
      "10 * (H div 10) + H mod 10 = H" "10 * (N div 10) + N mod 10 = N"
    by simp_all
  have qd: "1 \<le> 10 * (D div 10) + D mod 10" "10 * (D div 10) + D mod 10 \<le> 31" "D mod 10 < 10"
    using bounds by (simp_all only: e mod_less_divisor zero_less_numeral)
  have qm: "1 \<le> 10 * (M div 10) + M mod 10" "10 * (M div 10) + M mod 10 \<le> 12" "M mod 10 < 10"
    using bounds by (simp_all only: e mod_less_divisor zero_less_numeral)
  have qy: "Y div 1000 < 10" "Y div 100 mod 10 < 10" "Y div 10 mod 10 < 10" "Y mod 10 < 10"
    using bounds(6) by simp_all
  have qh: "10 * (H div 10) + H mod 10 \<le> 23" "H mod 10 < 10"
    using bounds by (simp_all only: e mod_less_divisor zero_less_numeral)
  have qn: "N div 10 \<le> 5" "N mod 10 < 10"
    using bounds(8) by simp_all
  have "\<exists>xs. format_regex_match (date_to_fixed_string d) =
      (([digit_char (D div 10), digit_char (D mod 10)],
        [digit_char (M div 10), digit_char (M mod 10)],
        [digit_char (Y div 1000), digit_char (Y div 100 mod 10), digit_char (Y div 10 mod 10),
         digit_char (Y mod 10)],
        [digit_char (H div 10), digit_char (H mod 10)],
        [digit_char (N div 10), digit_char (N mod 10)]), []) # xs"
    unfolding s by (rule format_regex_match_fixed [OF qd qm qy qh qn])
  then obtain xs where f: "format_regex_match (date_to_fixed_string d) =
      (([digit_char (D div 10), digit_char (D mod 10)],
        [digit_char (M div 10), digit_char (M mod 10)],
        [digit_char (Y div 1000), digit_char (Y div 100 mod 10), digit_char (Y div 10 mod 10),
         digit_char (Y mod 10)],
        [digit_char (H div 10), digit_char (H mod 10)],
        [digit_char (N div 10), digit_char (N mod 10)]), []) # xs"
    by (rule exE)
  have pd: "py_int [digit_char (D div 10), digit_char (D mod 10)] = day d"
    using bounds by (simp add: py_int_two ints [symmetric])
  have pm: "py_int [digit_char (M div 10), digit_char (M mod 10)] = month d"
    using bounds by (simp add: py_int_two ints [symmetric])
  have ph: "py_int [digit_char (H div 10), digit_char (H mod 10)] = hour d"
    using bounds by (simp add: py_int_two ints [symmetric])
  have pn: "py_int [digit_char (N div 10), digit_char (N mod 10)] = minute d"
    using bounds by (simp add: py_int_two ints [symmetric])
  have "1000 * (Y div 1000) + 100 * (Y div 100 mod 10) + 10 * (Y div 10 mod 10) + Y mod 10 = Y"
    by (rule four_digits)
  then have py: "py_int [digit_char (Y div 1000), digit_char (Y div 100 mod 10),
                  digit_char (Y div 10 mod 10), digit_char (Y mod 10)] = year d"
    using bounds by (simp add: py_int_four ints [symmetric])
  show ?thesis
    using c z by (simp add: strptime_def f pd pm ph pn py)
qed


text \<open>
  Claim C8. For every date-time d that Python can represent (years 1 to 9999) and that
  has minute precision (seconds and microseconds zero), parsing the rendering of d in
  the fixed format \<^verbatim>\<open>DD/MM/YYYY HH:MM\<close> gives d back.
\<close>

theorem parse_date_round_trip:
  assumes v: "minute_datetime d"
  shows "parse_date (Some (date_to_fixed_string d)) = Inr d"
proof -
  have "parse_date (Some (date_to_fixed_string d)) = strptime (date_to_fixed_string d)"
    by (simp add: parse_date_def)
  also from v have "\<dots> = Inr d"
    by (rule strptime_fixed_string)
  finally show ?thesis .
qed

theorem parse_date_round_trip_witness:
  "minute_datetime (at_minute 2024 2 29 23 59) \<and>
   date_to_fixed_string (at_minute 2024 2 29 23 59) = ''29/02/2024 23:59'' \<and>
   parse_date (Some ''29/02/2024 23:59'') = Inr (at_minute 2024 2 29 23 59)"
proof -
  have v: "minute_datetime (at_minute 2024 2 29 23 59)" by code_simp
  have r: "date_to_fixed_string (at_minute 2024 2 29 23 59) = ''29/02/2024 23:59''"
    by code_simp
  from parse_date_round_trip [OF v] v r show ?thesis by simp
qed

section \<open>What parse\_date accepts\<close>

lemma re_class_mem:
  "(a, r) \<in> set (re_class P s) \<Longrightarrow> \<exists>c. a = [c] \<and> P c \<and> s = c # r"
  by (auto simp: re_class_def split: list.splits if_splits)

lemma re_seq_mem:
  "(a, r) \<in> set (re_seq p q s) \<Longrightarrow>
   \<exists>a1 a2 r1. a = a1 @ a2 \<and> (a1, r1) \<in> set (p s) \<and> (a2, r) \<in> set (q r1)"
  by (auto simp: re_seq_def)

lemma re_alt_mem:
  "(a, r) \<in> set (re_alt p q s) \<longleftrightarrow> (a, r) \<in> set (p s) \<or> (a, r) \<in> set (q s)"
  by (simp add: re_alt_def)

lemma re_plus_mem:
  "(a, r) \<in> set (re_plus P s) \<Longrightarrow> s = a @ r \<and> a \<noteq> [] \<and> list_all P a"
  by (induction s arbitrary: a) (auto split: if_splits)

lemma in_range_digit:
  "in_range lo hi c \<Longrightarrow> is_digit lo \<Longrightarrow> is_digit hi \<Longrightarrow> is_digit c"
  by (auto simp: is_digit_def in_range_def)

lemma is_digit_not_space: "is_digit c \<Longrightarrow> \<not> is_space c"
  by (auto simp: is_digit_def in_range_def is_space_def)

lemma py_int_one: "is_digit c \<Longrightarrow> py_int [c] = digit_value c"
  by (simp add: py_int_def strip_def is_digit_not_space)

lemma py_int_pair: "is_digit c1 \<Longrightarrow> is_digit c2 \<Longrightarrow> py_int [c1, c2] = 10 * digit_value c1 + digit_value c2"
  by (simp add: py_int_def strip_def is_digit_not_space)

lemma digit_value_range: "in_range lo hi c \<Longrightarrow> digit_value lo \<le> digit_value c \<and> digit_value c \<le> digit_value hi"
  by (simp add: in_range_def digit_value_def)

lemma two_or_one:
  assumes "(a, r) \<in> set (re_alt (re_seq (re_class P) (re_class Q)) (re_class R) s)"
  shows "s = a @ r \<and> ((\<exists>c1 c2. a = [c1, c2] \<and> P c1 \<and> Q c2) \<or> (\<exists>c. a = [c] \<and> R c))"
  using assms by (auto simp: re_alt_mem dest!: re_seq_mem re_class_mem)

lemma re_M_mem:
  assumes "(a, r) \<in> set (re_M s)"
  shows "s = a @ r \<and> number_field 1 2 a \<and> 0 \<le> py_int a \<and> py_int a \<le> 59"
proof -
  from assms have s: "s = a @ r"
    and "(\<exists>c1 c2. a = [c1, c2] \<and> in_range CHR ''0'' CHR ''5'' c1 \<and> is_digit c2) \<or>
         (\<exists>c. a = [c] \<and> is_digit c)"
    unfolding re_M_def by (auto dest: two_or_one)
  then consider c1 c2 where "a = [c1, c2]" "in_range CHR ''0'' CHR ''5'' c1" "is_digit c2"
    | c where "a = [c]" "is_digit c"
    by blast
  then have "number_field 1 2 a \<and> 0 \<le> py_int a \<and> py_int a \<le> 59"
  proof cases
    case 1
    moreover from 1 have "is_digit c1" by (auto simp: is_digit_def in_range_def)
    ultimately show ?thesis
      by (auto simp: number_field_def py_int_pair is_digit_def in_range_def digit_value_def)
  next
    case 2
    then show ?thesis
      by (auto simp: number_field_def py_int_one is_digit_def in_range_def digit_value_def)
  qed
  with s show ?thesis by simp
qed


lemma pair_mem:
  "(a, r) \<in> set (re_seq (re_class P) (re_class Q) s) \<Longrightarrow>
   \<exists>c1 c2. a = [c1, c2] \<and> P c1 \<and> Q c2 \<and> s = c1 # c2 # r"
  by (auto dest!: re_seq_mem re_class_mem)

lemma single_mem:
  "(a, r) \<in> set (re_class P s) \<Longrightarrow> \<exists>c. a = [c] \<and> P c \<and> s = c # r"
  by (rule re_class_mem)

lemma is_digit_chars:
  "is_digit CHR ''0''" "is_digit CHR ''1''" "is_digit CHR ''2''" "is_digit CHR ''3''"
  "is_digit CHR ''5''" "is_digit CHR ''9''"
  by (simp_all add: is_digit_def in_range_def)

lemma re_H_mem:
  assumes "(a, r) \<in> set (re_H s)"
  shows "s = a @ r \<and> number_field 1 2 a \<and> 0 \<le> py_int a \<and> py_int a \<le> 23"
proof -
  from assms consider
      c1 c2 where "a = [c1, c2]" "c1 = CHR ''2''" "in_range CHR ''0'' CHR ''3'' c2" "s = c1 # c2 # r"
    | c1 c2 where "a = [c1, c2]" "in_range CHR ''0'' CHR ''1'' c1" "is_digit c2" "s = c1 # c2 # r"
    | c where "a = [c]" "is_digit c" "s = c # r"
    unfolding re_H_def re_lit_def re_alt_mem by (auto dest!: pair_mem single_mem)
  then show ?thesis
  proof cases
    case 1
    moreover from 1 have "is_digit c1" "is_digit c2"
      by (auto intro: in_range_digit simp: is_digit_chars)
    ultimately show ?thesis
      by (auto simp: number_field_def py_int_pair is_digit_def in_range_def digit_value_def)
  next
    case 2
    moreover from 2 have "is_digit c1"
      by (auto intro: in_range_digit simp: is_digit_chars)
    ultimately show ?thesis
      by (auto simp: number_field_def py_int_pair is_digit_def in_range_def digit_value_def)
  next
    case 3
    then show ?thesis
      by (auto simp: number_field_def py_int_one is_digit_def in_range_def digit_value_def)
  qed
qed

lemma re_m_mem:
  assumes "(a, r) \<in> set (re_m s)"
  shows "s = a @ r \<and> number_field 1 2 a"
proof -
  from assms consider
      c1 c2 where "a = [c1, c2]" "c1 = CHR ''1''" "in_range CHR ''0'' CHR ''2'' c2" "s = c1 # c2 # r"
    | c1 c2 where "a = [c1, c2]" "c1 = CHR ''0''" "in_range CHR ''1'' CHR ''9'' c2" "s = c1 # c2 # r"
    | c where "a = [c]" "in_range CHR ''1'' CHR ''9'' c" "s = c # r"
    unfolding re_m_def re_lit_def re_alt_mem by (auto dest!: pair_mem single_mem)
  then show ?thesis
    by cases (auto simp: number_field_def is_digit_chars intro: in_range_digit)
qed

lemma re_d_mem:
  assumes "(a, r) \<in> set (re_d s)"
  shows "s = a @ r \<and> (number_field 1 2 a \<or> (\<exists>c. a = [CHR '' '', c] \<and> is_digit c))"
proof -
  from assms consider
      c1 c2 where "a = [c1, c2]" "c1 = CHR ''3''" "in_range CHR ''0'' CHR ''1'' c2" "s = c1 # c2 # r"
    | c1 c2 where "a = [c1, c2]" "in_range CHR ''1'' CHR ''2'' c1" "is_digit c2" "s = c1 # c2 # r"
    | c1 c2 where "a = [c1, c2]" "c1 = CHR ''0''" "in_range CHR ''1'' CHR ''9'' c2" "s = c1 # c2 # r"
    | c where "a = [c]" "in_range CHR ''1'' CHR ''9'' c" "s = c # r"
    | c1 c2 where "a = [c1, c2]" "c1 = CHR '' ''" "in_range CHR ''1'' CHR ''9'' c2" "s = c1 # c2 # r"
    unfolding re_d_def re_lit_def re_alt_mem by (auto dest!: pair_mem single_mem)
  then show ?thesis
    by cases (auto simp: number_field_def is_digit_chars intro: in_range_digit)
qed

lemma re_Y_mem:
  assumes "(a, r) \<in> set (re_Y s)"
  shows "s = a @ r \<and> number_field 4 4 a"
  using assms unfolding re_Y_def
  by (auto simp: number_field_def dest!: re_seq_mem re_class_mem)

lemma re_lit_mem: "(a, r) \<in> set (re_lit x s) \<Longrightarrow> a = [x] \<and> s = x # r"
  by (auto simp: re_lit_def dest!: re_class_mem)

lemma format_regex_match_mem:
  assumes "((d, m, y, h, mi), rest) \<in> set (format_regex_match s)"
  shows "\<exists>ws. s = d @ ''/'' @ m @ ''/'' @ y @ ws @ h @ '':'' @ mi @ rest \<and>
           (number_field 1 2 d \<or> (\<exists>c. d = [CHR '' '', c] \<and> is_digit c)) \<and>
           number_field 1 2 m \<and> number_field 4 4 y \<and> ws \<noteq> [] \<and> list_all is_space ws \<and>
           number_field 1 2 h \<and> 0 \<le> py_int h \<and> py_int h \<le> 23 \<and>
           number_field 1 2 mi \<and> 0 \<le> py_int mi \<and> py_int mi \<le> 59"
proof -
  from assms obtain r1 s1 r2 r3 s2 r4 r5 ws r6 r7 s3 r8 where
    1: "(d, r1) \<in> set (re_d s)" and 2: "(s1, r2) \<in> set (re_lit CHR ''/'' r1)" and
    3: "(m, r3) \<in> set (re_m r2)" and 4: "(s2, r4) \<in> set (re_lit CHR ''/'' r3)" and
    5: "(y, r5) \<in> set (re_Y r4)" and 6: "(ws, r6) \<in> set (re_plus is_space r5)" and
    7: "(h, r7) \<in> set (re_H r6)" and 8: "(s3, r8) \<in> set (re_lit CHR '':'' r7)" and
    9: "(mi, rest) \<in> set (re_M r8)"
    unfolding format_regex_match_def by auto
  from re_d_mem [OF 1] re_lit_mem [OF 2] re_m_mem [OF 3] re_lit_mem [OF 4] re_Y_mem [OF 5]
    re_plus_mem [OF 6] re_H_mem [OF 7] re_lit_mem [OF 8] re_M_mem [OF 9]
  show ?thesis by auto
qed

lemma strptime_Inr:
  assumes "strptime s = Inr dt"
  shows "\<exists>d m y ws h mi.
           s = d @ ''/'' @ m @ ''/'' @ y @ ws @ h @ '':'' @ mi \<and>
           (number_field 1 2 d \<or> (\<exists>c. d = [CHR '' '', c] \<and> is_digit c)) \<and>
           number_field 1 2 m \<and> number_field 4 4 y \<and> ws \<noteq> [] \<and> list_all is_space ws \<and>
           number_field 1 2 h \<and> 0 \<le> py_int h \<and> py_int h \<le> 23 \<and>
           number_field 1 2 mi \<and> 0 \<le> py_int mi \<and> py_int mi \<le> 59 \<and>
           check_date_fields (py_int y) (py_int m) (py_int d) \<and>
           dt = \<lparr>year = py_int y, month = py_int m, day = py_int d,
                 hour = py_int h, minute = py_int mi, second = 0, microsecond = 0\<rparr>"
proof -
  from assms obtain d m y h mi xs where
    f: "format_regex_match s = ((d, m, y, h, mi), []) # xs" and
    c: "check_date_fields (py_int y) (py_int m) (py_int d)" and
    dt: "dt = \<lparr>year = py_int y, month = py_int m, day = py_int d,
                 hour = py_int h, minute = py_int mi, second = 0, microsecond = 0\<rparr>"
    by (auto simp: strptime_def split: list.splits prod.splits if_splits)
  from f have "((d, m, y, h, mi), []) \<in> set (format_regex_match s)" by simp
  from format_regex_match_mem [OF this] c dt show ?thesis
    by (simp only: append_Nil2) blast
qed

lemma strptime_error: "strptime s = Inl e \<Longrightarrow> e = ValueError"
  by (auto simp: strptime_def split: list.splits prod.splits if_splits)

text \<open>
  Claim C5, as amended. The claim as written (every string that is not in the
  zero-padded pattern fails) does not hold: strptime accepts day, month, hour and minute
  written with one digit. The first theorem is the counterexample: the string
  \<^verbatim>\<open>1/2/2020 3:04\<close> is not the fixed-pattern rendering of any date-time (that of
  1 February 2020, 03:04 is \<^verbatim>\<open>01/02/2020 03:04\<close>), and \<open>parse_date\<close> returns
  that date-time for it.
\<close>

theorem unpadded_fields_accepted:
  "parse_date (Some ''1/2/2020 3:04'') = Inr (at_minute 2020 2 1 3 4) \<and>
   date_to_fixed_string (at_minute 2020 2 1 3 4) = ''01/02/2020 03:04''"
  by code_simp

text \<open>
  Claim C5, the amended statement. Given the rendering of a date-time in the fixed
  pattern, \<open>parse_date\<close> returns that date-time. It accepts a string only when the
  string is a day, a slash, a month, a slash, a year, white space, an hour, a colon and a
  minute and nothing more, where day, month, hour and minute are one or two digits (the
  day may also be a space and a digit), the year is four digits, the values are a date of
  the calendar and a time from 00:00 to 23:59; the result is then the date-time these
  numbers denote. Every other string (wrong separators, fields that are not numbers, a
  day, month, hour or minute out of range) fails with \<^verbatim>\<open>ValueError\<close>, the
  specification's \<^verbatim>\<open>FormatError\<close>; there is no partial result.
\<close>

theorem parse_date_accepts:
  "(minute_datetime d \<longrightarrow> parse_date (Some (date_to_fixed_string d)) = Inr d) \<and>
   (parse_date (Some s) = Inr dt \<longrightarrow>
      (\<exists>dd m y ws h mi.
           s = dd @ ''/'' @ m @ ''/'' @ y @ ws @ h @ '':'' @ mi \<and>
           (number_field 1 2 dd \<or> (\<exists>c. dd = [CHR '' '', c] \<and> is_digit c)) \<and>
           number_field 1 2 m \<and> number_field 4 4 y \<and> ws \<noteq> [] \<and> list_all is_space ws \<and>
           number_field 1 2 h \<and> 0 \<le> py_int h \<and> py_int h \<le> 23 \<and>
           number_field 1 2 mi \<and> 0 \<le> py_int mi \<and> py_int mi \<le> 59 \<and>
           check_date_fields (py_int y) (py_int m) (py_int dd) \<and>
           dt = \<lparr>year = py_int y, month = py_int m, day = py_int dd,
                 hour = py_int h, minute = py_int mi, second = 0, microsecond = 0\<rparr>)) \<and>
   ((\<forall>dt. parse_date (Some s) \<noteq> Inr dt) \<longrightarrow> parse_date (Some s) = Inl ValueError)"
proof -
  have "parse_date (Some s) = Inl ValueError" if "\<forall>dt. parse_date (Some s) \<noteq> Inr dt"
  proof (cases "strptime s")
    case (Inl e)
    then show ?thesis
      using strptime_error [OF Inl] by (simp add: parse_date_def)
  next
    case (Inr dt)
    then show ?thesis
      using that by (simp add: parse_date_def)
  qed
  then show ?thesis
    using strptime_fixed_string [of d] strptime_Inr [of s dt]
    by (simp add: parse_date_def)
qed

theorem parse_date_accepts_witness:
  "parse_date (Some (date_to_fixed_string (at_minute 2020 2 1 3 4))) =
     Inr (at_minute 2020 2 1 3 4) \<and>
   (\<exists>dd m y ws h mi.
           ''1/2/2020 3:04'' = dd @ ''/'' @ m @ ''/'' @ y @ ws @ h @ '':'' @ mi \<and>
           (number_field 1 2 dd \<or> (\<exists>c. dd = [CHR '' '', c] \<and> is_digit c)) \<and>
           number_field 1 2 m \<and> number_field 4 4 y \<and> ws \<noteq> [] \<and> list_all is_space ws \<and>
           number_field 1 2 h \<and> 0 \<le> py_int h \<and> py_int h \<le> 23 \<and>
           number_field 1 2 mi \<and> 0 \<le> py_int mi \<and> py_int mi \<le> 59 \<and>
           check_date_fields (py_int y) (py_int m) (py_int dd) \<and>
           at_minute 2020 2 1 3 4 =
             \<lparr>year = py_int y, month = py_int m, day = py_int dd,
              hour = py_int h, minute = py_int mi, second = 0, microsecond = 0\<rparr>) \<and>
   parse_date (Some ''01-02-2020 03:04'') = Inl ValueError"
proof -
  have v: "minute_datetime (at_minute 2020 2 1 3 4)" by code_simp
  have p: "parse_date (Some ''1/2/2020 3:04'') = Inr (at_minute 2020 2 1 3 4)" by code_simp
  have "parse_date (Some ''01-02-2020 03:04'') = Inl ValueError" by code_simp
  then have n: "\<forall>dt. parse_date (Some ''01-02-2020 03:04'') \<noteq> Inr dt" by simp
  from parse_date_accepts [of "at_minute 2020 2 1 3 4" "''1/2/2020 3:04''" "at_minute 2020 2 1 3 4"]
    v p
  have a: "parse_date (Some (date_to_fixed_string (at_minute 2020 2 1 3 4))) =
     Inr (at_minute 2020 2 1 3 4)"
    and b: "\<exists>dd m y ws h mi.
           ''1/2/2020 3:04'' = dd @ ''/'' @ m @ ''/'' @ y @ ws @ h @ '':'' @ mi \<and>
           (number_field 1 2 dd \<or> (\<exists>c. dd = [CHR '' '', c] \<and> is_digit c)) \<and>
           number_field 1 2 m \<and> number_field 4 4 y \<and> ws \<noteq> [] \<and> list_all is_space ws \<and>
           number_field 1 2 h \<and> 0 \<le> py_int h \<and> py_int h \<le> 23 \<and>
           number_field 1 2 mi \<and> 0 \<le> py_int mi \<and> py_int mi \<le> 59 \<and>
           check_date_fields (py_int y) (py_int m) (py_int dd) \<and>
           at_minute 2020 2 1 3 4 =
             \<lparr>year = py_int y, month = py_int m, day = py_int dd,
              hour = py_int h, minute = py_int mi, second = 0, microsecond = 0\<rparr>"
    by blast+
  from parse_date_accepts [of "at_minute 2020 2 1 3 4" "''01-02-2020 03:04''" "at_minute 2020 2 1 3 4"] n
  have c: "parse_date (Some ''01-02-2020 03:04'') = Inl ValueError"
    by blast
  from a b c show ?thesis by blast
qed

end
